theory Spec2Isabelle
  imports Complex_Main "HOL-Library.Word" "HOL-Library.Signed_Division"
begin

unbundle bit_operations_syntax

section \<open>Data model\<close>

text \<open>
  The development follows the second, canonical revision of \<^verbatim>\<open>main.go\<close> (the one with the
  \<^verbatim>\<open>Generator\<close> type, parameter validation and cancellation).

  Go's \<^verbatim>\<open>uint8\<close>, \<^verbatim>\<open>uint16\<close> and \<^verbatim>\<open>uint32\<close> are words of that width: \<open>+\<close>, \<open>-\<close> and \<open>*\<close>
  wrap around, \<open>div\<close> and \<open>mod\<close> are the unsigned operations. Go's \<^verbatim>\<open>int\<close> is \<open>int\<close>: the program
  only compares such values, counts up to them and converts them to \<^verbatim>\<open>uint8\<close>, and the
  conversion keeps the low eight bits of the two's complement representation, which is
  \<open>word_of_int\<close> whatever the width of \<^verbatim>\<open>int\<close>. The width matters in two places, where it is
  taken as 64 bits: the length of a slice can reach \<open>2\<^sup>3\<^sup>2\<close>, and \<^verbatim>\<open>image.NewRGBA\<close> refuses a
  buffer length that overflows \<^verbatim>\<open>int\<close>.
\<close>

type_synonym uint8 = "8 word"
type_synonym uint16 = "16 word"
type_synonym uint32 = "32 word"

text \<open>\<^verbatim>\<open>color.RGBA\<close>, and the two implementations of \<^verbatim>\<open>color.Color\<close> that the program creates:
  \<^verbatim>\<open>color.RGBA\<close> values and \<^verbatim>\<open>color.Black\<close>, which is \<^verbatim>\<open>color.Gray16{0}\<close>. The interface
  \<^verbatim>\<open>color.Color\<close> itself is open. The type \<open>Color\<close> holds the values that reach the functions of
  the program: \<^verbatim>\<open>averageColors\<close> and \<^verbatim>\<open>img.Set\<close> are called by \<^verbatim>\<open>processRow\<close> only, on what
  \<^verbatim>\<open>mandelbrot\<close> and \<^verbatim>\<open>averageColors\<close> return. A \<^verbatim>\<open>nil\<close> interface value or an implementation
  from elsewhere, whose method \<^verbatim>\<open>RGBA()\<close> may panic, is not a value of \<open>Color\<close>, and nothing
  below speaks about it.\<close>

datatype RGBA = RGBA (R: uint8) (G: uint8) (B: uint8) (A: uint8)

datatype Color = ColorRGBA RGBA | ColorGray16 uint16

definition Black :: Color where
  "Black = ColorGray16 0"

text \<open>The method \<^verbatim>\<open>RGBA()\<close> of \<^verbatim>\<open>color.Color\<close>: the four channels widened to 16 bits inside a
  \<^verbatim>\<open>uint32\<close>. For \<^verbatim>\<open>color.RGBA\<close> it is \<^verbatim>\<open>r = uint32(c.R); r |= r << 8\<close>; for
  \<^verbatim>\<open>color.Gray16\<close> it is \<^verbatim>\<open>y, y, y, 0xffff\<close>.\<close>

definition widen8 :: "uint8 \<Rightarrow> uint32" where
  "widen8 x = (ucast x) OR (push_bit 8 (ucast x))"

fun Color_RGBA :: "Color \<Rightarrow> uint32 \<times> uint32 \<times> uint32 \<times> uint32" where
  "Color_RGBA (ColorRGBA c) = (widen8 (R c), widen8 (G c), widen8 (B c), widen8 (A c))"
| "Color_RGBA (ColorGray16 y) = (ucast y, ucast y, ucast y, 0xffff)"

text \<open>\<^verbatim>\<open>color.RGBAModel.Convert\<close>, which \<^verbatim>\<open>image.RGBA.Set\<close> applies to the colour it stores.\<close>

fun rgbaModel :: "Color \<Rightarrow> RGBA" where
  "rgbaModel (ColorRGBA c) = c"
| "rgbaModel c = (case Color_RGBA c of (r, g, b, a) \<Rightarrow>
     RGBA (ucast (drop_bit 8 r)) (ucast (drop_bit 8 g)) (ucast (drop_bit 8 b)) (ucast (drop_bit 8 a)))"

text \<open>
  \<^verbatim>\<open>float64\<close> and \<^verbatim>\<open>complex128\<close> arithmetic is not interpreted: the operations the program
  applies are the fields of a record, and every function that computes with floating point
  takes it as its first argument. A \<^verbatim>\<open>complex128\<close> is the pair of its parts,
  \<^verbatim>\<open>complex(x, y)\<close> the pair \<open>(x, y)\<close>. \<open>cmuladd ops v z\<close> is the expression \<^verbatim>\<open>v*v + z\<close> and
  \<open>escaped ops v\<close> the test \<^verbatim>\<open>cmplx.Abs(v) > 2\<close>. The real operations are applied one by
  one, as the source writes them; a compiler that fuses a multiplication with an addition
  rounds differently, which no property below depends on.
\<close>

record 'f float_ops =
  fzero :: 'f
  fhalf :: 'f
  of_int_f :: "int \<Rightarrow> 'f"
  fadd :: "'f \<Rightarrow> 'f \<Rightarrow> 'f"
  fsub :: "'f \<Rightarrow> 'f \<Rightarrow> 'f"
  fmul :: "'f \<Rightarrow> 'f \<Rightarrow> 'f"
  fdiv :: "'f \<Rightarrow> 'f \<Rightarrow> 'f"
  fle :: "'f \<Rightarrow> 'f \<Rightarrow> bool"
  cmuladd :: "'f \<times> 'f \<Rightarrow> 'f \<times> 'f \<Rightarrow> 'f \<times> 'f"
  escaped :: "'f \<times> 'f \<Rightarrow> bool"

text \<open>Exact arithmetic on the rationals, the instance used for concrete inputs. On the
  inputs chosen below (small integers and halves) IEEE 754 double arithmetic is exact, so
  the program computes the same values there.\<close>

definition exact_ops :: "rat float_ops" where
  "exact_ops = \<lparr> fzero = 0, fhalf = 1 / 2, of_int_f = rat_of_int,
     fadd = (+), fsub = (-), fmul = (*), fdiv = (/), fle = (\<le>),
     cmuladd = (\<lambda>(a, b) (x, y). (a * a - b * b + x, a * b + b * a + y)),
     escaped = (\<lambda>(a, b). a * a + b * b > 4) \<rparr>"

record 'f ViewPort =
  XMin :: 'f
  YMin :: 'f
  XMax :: 'f
  YMax :: 'f

record Size =
  Width :: int
  Height :: int

record RenderOpts =
  SubPixelSamples :: int
  MaxIterations :: int
  Contrast :: int

record 'f Parameters =
  ViewPort :: "'f ViewPort"
  Size :: Size
  RenderOpts :: RenderOpts

record 'f Generator =
  params :: "'f Parameters"

definition NewDefaultParameters :: "'f float_ops \<Rightarrow> 'f Parameters" where
  "NewDefaultParameters ops =
     \<lparr> ViewPort = \<lparr> XMin = of_int_f ops (-2), YMin = of_int_f ops (-2),
                    XMax = of_int_f ops 2, YMax = of_int_f ops 2 \<rparr>,
       Size = \<lparr> Width = 1024, Height = 1024 \<rparr>,
       RenderOpts = \<lparr> SubPixelSamples = 4, MaxIterations = 200, Contrast = 15 \<rparr> \<rparr>"

section \<open>The sampler: \<^verbatim>\<open>Generator.mandelbrot\<close>\<close>

text \<open>The conversion \<^verbatim>\<open>uint8(i)\<close> of an \<^verbatim>\<open>int\<close>.\<close>

definition uint8_of :: "int \<Rightarrow> uint8" where
  "uint8_of i = word_of_int i"

text \<open>The colour of the \<^verbatim>\<open>return\<close> inside the loop, for \<open>k = uint8(Contrast)\<close> and the
  counter \<open>n\<close>. In Go \<^verbatim>\<open>*\<close> and \<^verbatim>\<open>%\<close> bind tighter than \<^verbatim>\<open>-\<close> and \<^verbatim>\<open>+\<close> and associate to
  the left, so \<^verbatim>\<open>80 - k*n%128\<close> is \<^verbatim>\<open>80 - ((k*n) % 128)\<close>.\<close>

definition escape_color :: "uint8 \<Rightarrow> uint8 \<Rightarrow> Color" where
  "escape_color k n =
     ColorRGBA (RGBA (64 - k * n) (80 - ((k * n) mod 128)) (240 + ((k * n) mod 64)) 255)"

text \<open>The loop \<^verbatim>\<open>for n := uint8(0); n < uint8(MaxIterations); n++\<close>, entered with the
  current \<open>v\<close> and \<open>n\<close>. The counter cannot wrap inside the loop: \<open>n < lim\<close> gives
  \<open>n \<le> 254\<close>.\<close>

function mandelbrot_loop ::
  "'f float_ops \<Rightarrow> 'f Generator \<Rightarrow> 'f \<times> 'f \<Rightarrow> 'f \<times> 'f \<Rightarrow> uint8 \<Rightarrow> Color" where
  "mandelbrot_loop ops g z v n =
     (if n < uint8_of (MaxIterations (RenderOpts (params g))) then
        (let v' = cmuladd ops v z in
         if escaped ops v' then escape_color (uint8_of (Contrast (RenderOpts (params g)))) n
         else mandelbrot_loop ops g z v' (n + 1))
      else Black)"
  by pat_completeness auto
termination
proof (relation "measure (\<lambda>(ops, g, z, v, n).
         unat (uint8_of (MaxIterations (RenderOpts (params g)))) - unat n)")
  show "wf (measure (\<lambda>(ops :: 'f float_ops, g :: 'f Generator, z :: 'f \<times> 'f, v :: 'f \<times> 'f, n :: uint8).
         unat (uint8_of (MaxIterations (RenderOpts (params g)))) - unat n))"
    by simp
next
  fix ops :: "'f float_ops" and g :: "'f Generator" and z v x :: "'f \<times> 'f" and n :: uint8
  assume lt: "n < uint8_of (MaxIterations (RenderOpts (params g)))"
  let ?lim = "uint8_of (MaxIterations (RenderOpts (params g)))"
  from lt have "unat n < unat ?lim" by (simp add: word_less_nat_alt)
  moreover have "unat ?lim < 256" using unsigned_less [of ?lim, where 'a = nat] by simp
  ultimately have "unat (n + 1) = unat n + 1"
    by (simp add: unat_word_ariths)
  with \<open>unat n < unat ?lim\<close>
  show "((ops, g, z, x, n + 1), (ops, g, z, v, n)) \<in> measure (\<lambda>(ops, g, z, v, n).
         unat (uint8_of (MaxIterations (RenderOpts (params g)))) - unat n)"
    by simp
qed

declare mandelbrot_loop.simps [simp del]

definition mandelbrot :: "'f float_ops \<Rightarrow> 'f Generator \<Rightarrow> 'f \<times> 'f \<Rightarrow> Color" where
  "mandelbrot ops g z = mandelbrot_loop ops g z (fzero ops, fzero ops) 0"

text \<open>The recurrence of the specification: the value of \<open>v\<close> after \<open>k\<close> applications of
  \<open>v \<leftarrow> v\<^sup>2 + z\<close> to the zero value, used to say when a point escapes.\<close>

primrec orbit :: "'f float_ops \<Rightarrow> 'f \<times> 'f \<Rightarrow> nat \<Rightarrow> 'f \<times> 'f" where
  "orbit ops z 0 = (fzero ops, fzero ops)"
| "orbit ops z (Suc k) = cmuladd ops (orbit ops z k) z"

text \<open>The magnitude exceeds 2 after the \<open>k\<close>-th application (\<open>k \<ge> 1\<close>) and after none of the
  applications before it.\<close>

definition first_escape :: "'f float_ops \<Rightarrow> 'f \<times> 'f \<Rightarrow> nat \<Rightarrow> bool" where
  "first_escape ops z k \<longleftrightarrow>
     1 \<le> k \<and> escaped ops (orbit ops z k) \<and> (\<forall>j \<in> {1..<k}. \<not> escaped ops (orbit ops z j))"

section \<open>Supersampling: \<^verbatim>\<open>Generator.getSamples\<close> and \<^verbatim>\<open>averageColors\<close>\<close>

definition sample_points :: "'f float_ops \<Rightarrow> 'f \<Rightarrow> 'f \<Rightarrow> 'f \<Rightarrow> 'f \<Rightarrow> ('f \<times> 'f) list" where
  "sample_points ops x y samplingWidth samplingHeight =
     [(x, y),
      (fadd ops x samplingWidth, y),
      (fadd ops x samplingWidth, fadd ops y samplingHeight),
      (x, fadd ops y samplingHeight)]"

definition getSamples :: "'f float_ops \<Rightarrow> 'f Generator \<Rightarrow> 'f \<Rightarrow> 'f \<Rightarrow> 'f \<Rightarrow> 'f \<Rightarrow> Color list" where
  "getSamples ops g x y samplingWidth samplingHeight =
     map (mandelbrot ops g) (sample_points ops x y samplingWidth samplingHeight)"

text \<open>A run-time panic of the Go program is a value: the division by zero in
  \<^verbatim>\<open>averageColors\<close>, the panic of \<^verbatim>\<open>image.NewRGBA\<close> on a rectangle whose buffer length does not
  fit in an \<^verbatim>\<open>int\<close>, and memory that the run-time system does not provide: \<^verbatim>\<open>make\<close> panics on a
  size out of range, and the process stops when memory runs out. Either way the function
  that asked for the memory returns nothing.\<close>

datatype panic = IntegerDivideByZero | HugeOrNegativeDimensions | AllocationFailure

text \<open>The accumulation loop of \<^verbatim>\<open>averageColors\<close>: four \<^verbatim>\<open>uint32\<close> sums.\<close>

fun sum_channels ::
  "Color list \<Rightarrow> uint32 \<times> uint32 \<times> uint32 \<times> uint32 \<Rightarrow> uint32 \<times> uint32 \<times> uint32 \<times> uint32" where
  "sum_channels [] acc = acc"
| "sum_channels (c # cs) (r, g, b, a) =
     (case Color_RGBA c of (cr, cg, cb, ca) \<Rightarrow> sum_channels cs (r + cr, g + cg, b + cb, a + ca))"

text \<open>\<^verbatim>\<open>n := uint32(len(colors))\<close> keeps the low 32 bits of the length; \<^verbatim>\<open>r / n >> 8\<close> is
  \<^verbatim>\<open>(r / n) >> 8\<close>, and the division panics when \<open>n\<close> is 0.\<close>

definition averageColors :: "Color list \<Rightarrow> panic + Color" where
  "averageColors colors =
     (if length colors = 0 then Inr Black
      else
        (case sum_channels colors (0, 0, 0, 0) of (r, g, b, a) \<Rightarrow>
           (let n = (of_nat (length colors) :: uint32) in
            if n = 0 then Inl IntegerDivideByZero
            else Inr (ColorRGBA (RGBA (ucast (drop_bit 8 (r div n))) (ucast (drop_bit 8 (g div n)))
                                    (ucast (drop_bit 8 (b div n))) (ucast (drop_bit 8 (a div n))))))))"

text \<open>The average of one channel in the words of the specification: sum the widened values,
  divide by the sample count, then discard the low eight bits. The sum and the count are
  \<^verbatim>\<open>uint32\<close> values.\<close>

definition average_channel :: "uint32 list \<Rightarrow> uint8" where
  "average_channel xs = ucast (drop_bit 8 (sum_list xs div of_nat (length xs)))"

section \<open>Errors, the context and the image\<close>

text \<open>Go \<^verbatim>\<open>error\<close> values: the sentinel of the program, the two errors a context reports, and
  \<^verbatim>\<open>fmt.Errorf\<close> with one \<^verbatim>\<open>%w\<close> verb, kept as the text before the verb, the wrapped error and
  the text after it.\<close>

datatype error =
    ErrInvalidParameters
  | Canceled
  | DeadlineExceeded
  | Errorf string error string

fun Error :: "error \<Rightarrow> string" where
  "Error ErrInvalidParameters = ''invalid parameters''"
| "Error Canceled = ''context canceled''"
| "Error DeadlineExceeded = ''context deadline exceeded''"
| "Error (Errorf pre e post) = pre @ Error e @ post"

fun errors_Is :: "error \<Rightarrow> error \<Rightarrow> bool" where
  "errors_Is (Errorf pre e post) target = (Errorf pre e post = target \<or> errors_Is e target)"
| "errors_Is e target = (e = target)"

text \<open>What a row task sees of the \<^verbatim>\<open>context.Context\<close>: \<open>Done ctx py px\<close> says whether the
  channel \<^verbatim>\<open>ctx.Done()\<close> is closed when row \<open>py\<close> makes its check before pixel \<open>px\<close>, and
  \<open>Err ctx\<close> is what \<^verbatim>\<open>ctx.Err()\<close> returns then. The context is a context: \<^verbatim>\<open>Generate\<close> called with
  \<^verbatim>\<open>nil\<close> is outside the model.\<close>

record Context =
  Done :: "int \<Rightarrow> int \<Rightarrow> bool"
  Err :: error

text \<open>\<^verbatim>\<open>image.Rectangle\<close> and \<^verbatim>\<open>image.RGBA\<close> of the standard library. \<open>Pix\<close> holds one \<open>RGBA\<close>
  cell for each pixel, where the library holds its four bytes, and \<open>Stride\<close> counts cells.\<close>

record Rectangle =
  MinX :: int
  MinY :: int
  MaxX :: int
  MaxY :: int

record Image =
  Pix :: "RGBA list"
  Stride :: int
  Rect :: Rectangle

text \<open>\<^verbatim>\<open>image.Rect\<close> orders the corners.\<close>

definition image_Rect :: "int \<Rightarrow> int \<Rightarrow> int \<Rightarrow> int \<Rightarrow> Rectangle" where
  "image_Rect x0 y0 x1 y1 =
     \<lparr> MinX = min x0 x1, MinY = min y0 y1, MaxX = max x0 x1, MaxY = max y0 y1 \<rparr>"

text \<open>
  \<^verbatim>\<open>image.NewRGBA\<close> of the standard library computes the buffer length
  \<open>4 \<cdot> Dx \<cdot> Dy\<close> with \<^verbatim>\<open>mul3NonNeg\<close>, which returns -1 when an argument is negative or the
  product overflows \<^verbatim>\<open>int\<close>, here of 64 bits: the check goes through two 64-bit unsigned
  products and the conversion back to \<^verbatim>\<open>int\<close>. On -1 \<^verbatim>\<open>pixelBufferLength\<close> panics. Then
  \<^verbatim>\<open>make\<close> allocates the zeroed buffer, if the run-time system provides it.

  What the run-time system provides depends on the machine and is not interpreted: a
  \<open>machine\<close> says whether \<^verbatim>\<open>make\<close> returns a slice of \<open>n\<close> bytes, whether it returns a channel of
  errors of capacity \<open>n\<close>, and whether \<open>n\<close> row tasks get the memory they run in.
\<close>

record machine =
  make_bytes :: "int \<Rightarrow> bool"
  make_chan :: "int \<Rightarrow> bool"
  go_rows :: "int \<Rightarrow> bool"

definition mul3NonNeg :: "int \<Rightarrow> int \<Rightarrow> int \<Rightarrow> int" where
  "mul3NonNeg x y z =
     (if x < 0 \<or> y < 0 \<or> z < 0 then - 1
      else if 2 ^ 64 \<le> x * y then - 1
      else if 2 ^ 64 \<le> x * y * z then - 1
      else if 2 ^ 63 \<le> x * y * z then - 1
      else x * y * z)"

definition pixelBufferLength :: "int \<Rightarrow> Rectangle \<Rightarrow> panic + int" where
  "pixelBufferLength bytesPerPixel r =
     (let totalLength = mul3NonNeg bytesPerPixel (MaxX r - MinX r) (MaxY r - MinY r)
      in if totalLength < 0 then Inl HugeOrNegativeDimensions else Inr totalLength)"

definition NewRGBA :: "machine \<Rightarrow> Rectangle \<Rightarrow> panic + Image" where
  "NewRGBA mach r =
     (case pixelBufferLength 4 r of
        Inl p \<Rightarrow> Inl p
      | Inr n \<Rightarrow>
          if \<not> make_bytes mach n then Inl AllocationFailure
          else Inr \<lparr> Pix = replicate (nat ((MaxX r - MinX r) * (MaxY r - MinY r))) (RGBA 0 0 0 0),
                     Stride = MaxX r - MinX r,
                     Rect = r \<rparr>)"

definition PixOffset :: "Image \<Rightarrow> int \<Rightarrow> int \<Rightarrow> nat" where
  "PixOffset img x y = nat ((y - MinY (Rect img)) * Stride img + (x - MinX (Rect img)))"

definition In_Rect :: "int \<Rightarrow> int \<Rightarrow> Rectangle \<Rightarrow> bool" where
  "In_Rect x y r \<longleftrightarrow> MinX r \<le> x \<and> x < MaxX r \<and> MinY r \<le> y \<and> y < MaxY r"

text \<open>\<^verbatim>\<open>image.RGBA.Set\<close>: nothing happens outside the rectangle.\<close>

definition Set :: "Image \<Rightarrow> int \<Rightarrow> int \<Rightarrow> Color \<Rightarrow> Image" where
  "Set img x y c =
     (if \<not> In_Rect x y (Rect img) then img
      else img\<lparr>Pix := (Pix img)[PixOffset img x y := rgbaModel c]\<rparr>)"

definition RGBAAt :: "Image \<Rightarrow> int \<Rightarrow> int \<Rightarrow> RGBA" where
  "RGBAAt img x y =
     (if \<not> In_Rect x y (Rect img) then RGBA 0 0 0 0 else Pix img ! PixOffset img x y)"

section \<open>Validation: \<^verbatim>\<open>validateParameters\<close> and \<^verbatim>\<open>NewGenerator\<close>\<close>

definition validateParameters :: "'f float_ops \<Rightarrow> 'f Parameters \<Rightarrow> error option" where
  "validateParameters ops p =
     (if fle ops (XMax (ViewPort p)) (XMin (ViewPort p)) \<or> fle ops (YMax (ViewPort p)) (YMin (ViewPort p))
      then Some (Errorf [] ErrInvalidParameters '': invalid viewport range'')
      else if Width (Size p) \<le> 0 \<or> Height (Size p) \<le> 0
      then Some (Errorf [] ErrInvalidParameters '': invalid image size'')
      else if SubPixelSamples (RenderOpts p) \<le> 0
      then Some (Errorf [] ErrInvalidParameters '': invalid subpixel samples'')
      else None)"

definition NewGenerator :: "'f float_ops \<Rightarrow> 'f Parameters \<Rightarrow> error + 'f Generator" where
  "NewGenerator ops p =
     (case validateParameters ops p of
        Some err \<Rightarrow> Inl (Errorf ''invalid parameters: '' err [])
      | None \<Rightarrow> Inr \<lparr> params = p \<rparr>)"

section \<open>The row renderer: \<^verbatim>\<open>Generator.processRow\<close>\<close>

text \<open>The loop \<^verbatim>\<open>for px := 0; px < Width; px++\<close> with its \<^verbatim>\<open>select\<close>, entered at \<open>px\<close> with the
  image as it is then. The result is the returned error (\<open>None\<close> for \<^verbatim>\<open>nil\<close>) and the image
  as the row leaves it, or a panic.\<close>

function processRow_loop ::
  "'f float_ops \<Rightarrow> 'f Generator \<Rightarrow> Context \<Rightarrow> int \<Rightarrow> 'f \<Rightarrow> 'f \<Rightarrow> 'f \<Rightarrow> int \<Rightarrow> Image
     \<Rightarrow> panic + (error option \<times> Image)" where
  "processRow_loop ops g ctx py y samplingWidth samplingHeight px img =
     (if px < Width (Size (params g)) then
        (if Done ctx py px then Inr (Some (Err ctx), img)
         else
           (let x = fadd ops
                      (fmul ops
                         (fdiv ops (of_int_f ops px) (of_int_f ops (Width (Size (params g)))))
                         (fsub ops (XMax (ViewPort (params g))) (XMin (ViewPort (params g)))))
                      (XMin (ViewPort (params g)));
                samples = getSamples ops g x y samplingWidth samplingHeight
            in case averageColors samples of
                 Inl p \<Rightarrow> Inl p
               | Inr avgColor \<Rightarrow>
                   processRow_loop ops g ctx py y samplingWidth samplingHeight (px + 1)
                     (Set img px py avgColor)))
      else Inr (None, img))"
  by pat_completeness auto
termination
  by (relation "measure (\<lambda>(ops, g, ctx, py, y, sw, sh, px, img). nat (Width (Size (params g)) - px))")
     auto

declare processRow_loop.simps [simp del]

definition processRow ::
  "'f float_ops \<Rightarrow> 'f Generator \<Rightarrow> Context \<Rightarrow> int \<Rightarrow> Image \<Rightarrow> 'f \<Rightarrow> 'f
     \<Rightarrow> panic + (error option \<times> Image)" where
  "processRow ops g ctx py img samplingWidth samplingHeight =
     (let y = fadd ops
                (fmul ops
                   (fdiv ops (of_int_f ops py) (of_int_f ops (Height (Size (params g)))))
                   (fsub ops (YMax (ViewPort (params g))) (YMin (ViewPort (params g)))))
                (YMin (ViewPort (params g)))
      in processRow_loop ops g ctx py y samplingWidth samplingHeight 0 img)"

section \<open>The orchestrator: \<^verbatim>\<open>Generator.Generate\<close>\<close>

text \<open>
  \<^verbatim>\<open>Generate\<close> starts one goroutine for each row and waits for all of them. A row task reads
  the parameters, which nothing changes, and writes cells of its own row only, so the tasks
  have the effect of running one after another in some order. That order is the argument
  \<open>sched\<close>: a list of the row indices, which is also the order in which the errors reach
  \<^verbatim>\<open>errChan\<close>. The channel has room for one error of every row, so no send blocks. \<^verbatim>\<open>Generate\<close>
  allocates the image first, then the channel with \<^verbatim>\<open>make(chan error, Height)\<close>, then it
  starts the rows; the argument \<open>mach\<close> says which of these the machine provides.
\<close>

fun run_rows ::
  "'f float_ops \<Rightarrow> 'f Generator \<Rightarrow> Context \<Rightarrow> 'f \<Rightarrow> 'f \<Rightarrow> int list \<Rightarrow> Image \<times> error list
     \<Rightarrow> panic + (Image \<times> error list)" where
  "run_rows ops g ctx samplingWidth samplingHeight [] st = Inr st"
| "run_rows ops g ctx samplingWidth samplingHeight (py # rest) (img, errChan) =
     (case processRow ops g ctx py img samplingWidth samplingHeight of
        Inl p \<Rightarrow> Inl p
      | Inr (err, img') \<Rightarrow>
          run_rows ops g ctx samplingWidth samplingHeight rest
            (img', (case err of None \<Rightarrow> errChan | Some e \<Rightarrow> errChan @ [e])))"

definition Generate_sched ::
  "'f float_ops \<Rightarrow> machine \<Rightarrow> 'f Generator \<Rightarrow> Context \<Rightarrow> int list
     \<Rightarrow> panic + (error + Image)" where
  "Generate_sched ops mach g ctx sched =
     (case NewRGBA mach
             (image_Rect 0 0 (Width (Size (params g))) (Height (Size (params g)))) of
        Inl p \<Rightarrow> Inl p
      | Inr img \<Rightarrow>
          (let samplingWidth =
                 fmul ops (fdiv ops (fhalf ops) (of_int_f ops (Width (Size (params g)))))
                          (fsub ops (XMax (ViewPort (params g))) (XMin (ViewPort (params g))));
               samplingHeight =
                 fmul ops (fdiv ops (fhalf ops) (of_int_f ops (Height (Size (params g)))))
                          (fsub ops (YMax (ViewPort (params g))) (YMin (ViewPort (params g))))
           in if \<not> make_chan mach (Height (Size (params g))) then Inl AllocationFailure
              else if \<not> go_rows mach (Height (Size (params g))) then Inl AllocationFailure
              else
                (case run_rows ops g ctx samplingWidth samplingHeight sched (img, []) of
                   Inl p \<Rightarrow> Inl p
                 | Inr (img', errChan) \<Rightarrow>
                     (case errChan of
                        [] \<Rightarrow> Inr (Inr img')
                      | err # _ \<Rightarrow> Inr (Inl (Errorf ''error processing row: '' err []))))))"

text \<open>The rows that \<^verbatim>\<open>for py := 0; py < Height; py++\<close> starts, and the orders in which they
  can run: each row once.\<close>

definition rows :: "'f Generator \<Rightarrow> int list" where
  "rows g = [0 ..  Height (Size (params g)) - 1]"

definition schedule :: "'f Generator \<Rightarrow> int list \<Rightarrow> bool" where
  "schedule g sched \<longleftrightarrow> distinct sched \<and> set sched = set (rows g)"

definition Generate ::
  "'f float_ops \<Rightarrow> machine \<Rightarrow> 'f Generator \<Rightarrow> Context \<Rightarrow> panic + (error + Image)" where
  "Generate ops mach g ctx = Generate_sched ops mach g ctx (rows g)"

section \<open>Notions used to state the properties\<close>

text \<open>The number of times the loop of \<^verbatim>\<open>mandelbrot\<close> can run: the bound after its conversion
  to \<^verbatim>\<open>uint8\<close>.\<close>

definition iteration_limit :: "'f Generator \<Rightarrow> nat" where
  "iteration_limit g = unat (uint8_of (MaxIterations (RenderOpts (params g))))"

text \<open>The colour formulas as the specification words them, each modulus applied to the
  whole difference or sum: \<open>R = (64 - contrast\<cdot>n) mod 256\<close>, \<open>G = (80 - contrast\<cdot>n) mod 128\<close>,
  \<open>B = (240 + contrast\<cdot>n) mod 64\<close>, \<open>A = 255\<close>.\<close>

definition claimed_escape_color :: "int \<Rightarrow> int \<Rightarrow> Color" where
  "claimed_escape_color contrast n =
     ColorRGBA (RGBA (word_of_int ((64 - contrast * n) mod 256))
                     (word_of_int ((80 - contrast * n) mod 128))
                     (word_of_int ((240 + contrast * n) mod 64))
                     255)"

text \<open>A generator with one render option replaced.\<close>

definition with_Contrast :: "'f Generator \<Rightarrow> int \<Rightarrow> 'f Generator" where
  "with_Contrast g c =
     g\<lparr>params := (params g)\<lparr>RenderOpts := (RenderOpts (params g))\<lparr>Contrast := c\<rparr>\<rparr>\<rparr>"

definition with_MaxIterations :: "'f Generator \<Rightarrow> int \<Rightarrow> 'f Generator" where
  "with_MaxIterations g m =
     g\<lparr>params := (params g)\<lparr>RenderOpts := (RenderOpts (params g))\<lparr>MaxIterations := m\<rparr>\<rparr>\<rparr>"

definition with_SubPixelSamples :: "'f Generator \<Rightarrow> int \<Rightarrow> 'f Generator" where
  "with_SubPixelSamples g s =
     g\<lparr>params := (params g)\<lparr>RenderOpts := (RenderOpts (params g))\<lparr>SubPixelSamples := s\<rparr>\<rparr>\<rparr>"

text \<open>The generator of \<^verbatim>\<open>main\<close>: the default parameters, here over exact arithmetic.\<close>

definition default_generator :: "rat Generator" where
  "default_generator = \<lparr> params = NewDefaultParameters exact_ops \<rparr>"

text \<open>The four results of the method \<^verbatim>\<open>RGBA()\<close>, one by one.\<close>

definition red32 :: "Color \<Rightarrow> uint32" where
  "red32 c = (case Color_RGBA c of (r, g, b, a) \<Rightarrow> r)"

definition green32 :: "Color \<Rightarrow> uint32" where
  "green32 c = (case Color_RGBA c of (r, g, b, a) \<Rightarrow> g)"

definition blue32 :: "Color \<Rightarrow> uint32" where
  "blue32 c = (case Color_RGBA c of (r, g, b, a) \<Rightarrow> b)"

definition alpha32 :: "Color \<Rightarrow> uint32" where
  "alpha32 c = (case Color_RGBA c of (r, g, b, a) \<Rightarrow> a)"

text \<open>The parameter sets that the specification calls invalid: a degenerate or inverted
  viewport, a non-positive dimension, a non-positive sample count.\<close>

definition invalid_parameters :: "'f float_ops \<Rightarrow> 'f Parameters \<Rightarrow> bool" where
  "invalid_parameters ops p \<longleftrightarrow>
     fle ops (XMax (ViewPort p)) (XMin (ViewPort p))
     \<or> fle ops (YMax (ViewPort p)) (YMin (ViewPort p))
     \<or> Width (Size p) \<le> 0 \<or> Height (Size p) \<le> 0 \<or> SubPixelSamples (RenderOpts p) \<le> 0"

text \<open>The colour that \<^verbatim>\<open>averageColors\<close> computes for a list whose length is not 0 as a
  \<^verbatim>\<open>uint32\<close>.\<close>

definition average_RGBA :: "Color list \<Rightarrow> RGBA" where
  "average_RGBA colors =
     RGBA (average_channel (map red32 colors)) (average_channel (map green32 colors))
          (average_channel (map blue32 colors)) (average_channel (map alpha32 colors))"

text \<open>An image on the rectangle from \<open>(0, 0)\<close> to \<open>(w, h)\<close> with a cell for each pixel.\<close>

definition image_of_size :: "int \<Rightarrow> int \<Rightarrow> Image \<Rightarrow> bool" where
  "image_of_size w h img \<longleftrightarrow>
     Rect img = \<lparr> MinX = 0, MinY = 0, MaxX = w, MaxY = h \<rparr> \<and> Stride img = w
     \<and> length (Pix img) = nat (w * h)"

text \<open>The plane coordinates of a pixel column and of a pixel row, and half a pixel's width
  and height in plane units, as \<^verbatim>\<open>processRow\<close> and \<^verbatim>\<open>Generate\<close> compute them.\<close>

definition plane_x :: "'f float_ops \<Rightarrow> 'f Generator \<Rightarrow> int \<Rightarrow> 'f" where
  "plane_x ops g px =
     fadd ops
       (fmul ops (fdiv ops (of_int_f ops px) (of_int_f ops (Width (Size (params g)))))
                 (fsub ops (XMax (ViewPort (params g))) (XMin (ViewPort (params g)))))
       (XMin (ViewPort (params g)))"

definition plane_y :: "'f float_ops \<Rightarrow> 'f Generator \<Rightarrow> int \<Rightarrow> 'f" where
  "plane_y ops g py =
     fadd ops
       (fmul ops (fdiv ops (of_int_f ops py) (of_int_f ops (Height (Size (params g)))))
                 (fsub ops (YMax (ViewPort (params g))) (YMin (ViewPort (params g)))))
       (YMin (ViewPort (params g)))"

definition halfPixelWidth :: "'f float_ops \<Rightarrow> 'f Generator \<Rightarrow> 'f" where
  "halfPixelWidth ops g =
     fmul ops (fdiv ops (fhalf ops) (of_int_f ops (Width (Size (params g)))))
              (fsub ops (XMax (ViewPort (params g))) (XMin (ViewPort (params g))))"

definition halfPixelHeight :: "'f float_ops \<Rightarrow> 'f Generator \<Rightarrow> 'f" where
  "halfPixelHeight ops g =
     fmul ops (fdiv ops (fhalf ops) (of_int_f ops (Height (Size (params g)))))
              (fsub ops (YMax (ViewPort (params g))) (YMin (ViewPort (params g))))"

text \<open>Three contexts: one that is never cancelled, one that is cancelled before rendering
  starts, and one whose cancellation every row observes from the pixel \<open>k\<close> on.\<close>

definition never_done :: Context where
  "never_done = \<lparr> Done = (\<lambda>py px. False), Err = Canceled \<rparr>"

definition always_done :: Context where
  "always_done = \<lparr> Done = (\<lambda>py px. True), Err = Canceled \<rparr>"

definition done_from :: "int \<Rightarrow> Context" where
  "done_from k = \<lparr> Done = (\<lambda>py px. k \<le> px), Err = Canceled \<rparr>"

text \<open>The parameter sets that a machine can render: the length \<open>4 \<cdot> width \<cdot> height\<close> of the
  pixel buffer fits in an \<^verbatim>\<open>int\<close>, and the machine provides the buffer, the channel of
  \<open>height\<close> errors and the \<open>height\<close> row tasks.\<close>

definition allocatable :: "machine \<Rightarrow> 'f Parameters \<Rightarrow> bool" where
  "allocatable mach p \<longleftrightarrow>
     4 * Width (Size p) * Height (Size p) < 2 ^ 63
     \<and> make_bytes mach (4 * Width (Size p) * Height (Size p))
     \<and> make_chan mach (Height (Size p))
     \<and> go_rows mach (Height (Size p))"

text \<open>A machine that provides a buffer of up to \<open>2\<^sup>3\<^sup>0\<close> bytes and up to \<open>2\<^sup>2\<^sup>0\<close> rows.\<close>

definition roomy_machine :: machine where
  "roomy_machine =
     \<lparr> make_bytes = (\<lambda>n. n \<le> 2 ^ 30),
       make_chan = (\<lambda>n. 0 \<le> n \<and> n \<le> 2 ^ 20),
       go_rows = (\<lambda>n. n \<le> 2 ^ 20) \<rparr>"

text \<open>A parameter set that validation accepts and whose buffer length \<open>2\<^sup>6\<^sup>4\<close> does not fit in
  an \<^verbatim>\<open>int\<close>: the default parameters on \<open>2\<^sup>3\<^sup>1\<close> by \<open>2\<^sup>3\<^sup>1\<close> pixels.\<close>

definition huge_parameters :: "rat Parameters" where
  "huge_parameters = (NewDefaultParameters exact_ops)
     \<lparr>Size := \<lparr>Width = 2147483648, Height = 2147483648\<rparr>\<rparr>"

definition huge_generator :: "rat Generator" where
  "huge_generator = \<lparr> params = huge_parameters \<rparr>"

text \<open>A small parameter set for concrete runs: the default viewport on 2 by 2 pixels, with
  three iterations. Its sample points have the coordinates -2, -1, 0 and 1.\<close>

definition tiny_parameters :: "rat Parameters" where
  "tiny_parameters = (NewDefaultParameters exact_ops)
     \<lparr>Size := \<lparr>Width = 2, Height = 2\<rparr>,
      RenderOpts := \<lparr>SubPixelSamples = 4, MaxIterations = 3, Contrast = 15\<rparr>\<rparr>"

definition tiny_generator :: "rat Generator" where
  "tiny_generator = \<lparr> params = tiny_parameters \<rparr>"

section \<open>The sampler: proofs\<close>

subsection \<open>The loop follows the recurrence\<close>

lemma unat_succ_u8: "(n :: uint8) < m \<Longrightarrow> unat (n + 1) = Suc (unat n)"
proof -
  assume "n < m"
  then have "unat n < unat m" by (simp add: word_less_nat_alt)
  moreover have "unat m < 256" using unsigned_less [of m, where 'a = nat] by simp
  ultimately show ?thesis by (simp add: unat_word_ariths)
qed

lemma iteration_limit_mod:
  "iteration_limit g = nat (MaxIterations (RenderOpts (params g)) mod 256)"
  by (simp add: iteration_limit_def uint8_of_def unat_eq_nat_uint uint_word_of_int take_bit_eq_mod)

lemma iteration_limit_less: "iteration_limit g < 256"
  unfolding iteration_limit_def
  using unsigned_less [of "uint8_of (MaxIterations (RenderOpts (params g)))", where 'a = nat]
  by simp

text \<open>Entered with the counter \<open>n\<close> and the value after \<open>n\<close> applications, the loop returns
  black when no later value within the bound escapes, and the colour for the counter
  \<open>k - 1\<close> when the value after \<open>k\<close> applications is the first to escape.\<close>

lemma mandelbrot_loop_Black:
  "v = orbit ops z (unat n) \<Longrightarrow>
   \<forall>j. unat n < j \<and> j \<le> unat (uint8_of (MaxIterations (RenderOpts (params g))))
        \<longrightarrow> \<not> escaped ops (orbit ops z j) \<Longrightarrow>
   mandelbrot_loop ops g z v n = Black"
proof (induction ops g z v n rule: mandelbrot_loop.induct)
  case (1 ops g z v n)
  let ?lim = "uint8_of (MaxIterations (RenderOpts (params g)))"
  show ?case
  proof (cases "n < ?lim")
    case False
    then show ?thesis by (simp add: mandelbrot_loop.simps [of ops g z v n])
  next
    case True
    then have s: "unat (n + 1) = Suc (unat n)" by (rule unat_succ_u8)
    from True have le: "Suc (unat n) \<le> unat ?lim" by (simp add: word_less_nat_alt)
    have v': "cmuladd ops v z = orbit ops z (unat (n + 1))" using "1.prems"(1) s by simp
    have ne: "\<not> escaped ops (cmuladd ops v z)"
      using "1.prems"(2) le v' s by auto
    have "mandelbrot_loop ops g z (cmuladd ops v z) (n + 1) = Black"
      using "1.IH" [OF True refl ne v'] "1.prems"(2) s by auto
    then show ?thesis using True ne
      by (simp add: mandelbrot_loop.simps [of ops g z v n])
  qed
qed

lemma mandelbrot_loop_escape:
  "v = orbit ops z (unat n) \<Longrightarrow> unat n < k \<Longrightarrow>
   k \<le> unat (uint8_of (MaxIterations (RenderOpts (params g)))) \<Longrightarrow>
   escaped ops (orbit ops z k) \<Longrightarrow>
   \<forall>j. unat n < j \<and> j < k \<longrightarrow> \<not> escaped ops (orbit ops z j) \<Longrightarrow>
   mandelbrot_loop ops g z v n =
     escape_color (uint8_of (Contrast (RenderOpts (params g)))) (of_nat (k - 1))"
proof (induction ops g z v n rule: mandelbrot_loop.induct)
  case (1 ops g z v n)
  let ?lim = "uint8_of (MaxIterations (RenderOpts (params g)))"
  from "1.prems"(2,3) have "unat n < unat ?lim" by simp
  then have lt: "n < ?lim" by (simp add: word_less_nat_alt)
  then have s: "unat (n + 1) = Suc (unat n)" by (rule unat_succ_u8)
  have v': "cmuladd ops v z = orbit ops z (unat (n + 1))" using "1.prems"(1) s by simp
  show ?case
  proof (cases "k = Suc (unat n)")
    case True
    then have "escaped ops (cmuladd ops v z)" using "1.prems"(4) v' s by simp
    moreover have "(of_nat (k - 1) :: uint8) = n" using True by simp
    ultimately show ?thesis using lt
      by (simp add: mandelbrot_loop.simps [of ops g z v n])
  next
    case False
    with "1.prems"(2) have k: "unat (n + 1) < k" using s by simp
    have ne: "\<not> escaped ops (cmuladd ops v z)"
      using "1.prems"(5) k v' s by auto
    have "mandelbrot_loop ops g z (cmuladd ops v z) (n + 1) =
            escape_color (uint8_of (Contrast (RenderOpts (params g)))) (of_nat (k - 1))"
      using "1.IH" [OF lt refl ne v' k "1.prems"(3,4)] "1.prems"(5) s by auto
    then show ?thesis using lt ne
      by (simp add: mandelbrot_loop.simps [of ops g z v n])
  qed
qed

lemma mandelbrot_at_first_escape:
  assumes "first_escape ops z k" and "k \<le> iteration_limit g"
  shows "mandelbrot ops g z =
           escape_color (uint8_of (Contrast (RenderOpts (params g)))) (of_nat (k - 1))"
  unfolding mandelbrot_def
proof (rule mandelbrot_loop_escape)
  show "(fzero ops, fzero ops) = orbit ops z (unat (0 :: uint8))" by simp
  show "unat (0 :: uint8) < k" using assms(1) by (simp add: first_escape_def)
  show "k \<le> unat (uint8_of (MaxIterations (RenderOpts (params g))))"
    using assms(2) by (simp add: iteration_limit_def)
  show "escaped ops (orbit ops z k)" using assms(1) by (simp add: first_escape_def)
  show "\<forall>j. unat (0 :: uint8) < j \<and> j < k \<longrightarrow> \<not> escaped ops (orbit ops z j)"
    using assms(1) by (auto simp: first_escape_def)
qed

lemma mandelbrot_no_escape:
  assumes "\<forall>k \<in> {1..iteration_limit g}. \<not> escaped ops (orbit ops z k)"
  shows "mandelbrot ops g z = Black"
  unfolding mandelbrot_def
proof (rule mandelbrot_loop_Black)
  show "(fzero ops, fzero ops) = orbit ops z (unat (0 :: uint8))" by simp
  show "\<forall>j. unat (0 :: uint8) < j \<and> j \<le> unat (uint8_of (MaxIterations (RenderOpts (params g))))
         \<longrightarrow> \<not> escaped ops (orbit ops z j)"
    using assms by (auto simp: iteration_limit_def)
qed

text \<open>An escape has a first escape, by the least-number principle.\<close>

lemma first_escape_exists:
  assumes "1 \<le> k" and "escaped ops (orbit ops z k)"
  shows "\<exists>k'. k' \<le> k \<and> first_escape ops z k'"
proof -
  define k' where "k' = (LEAST j. 1 \<le> j \<and> escaped ops (orbit ops z j))"
  have P: "1 \<le> k' \<and> escaped ops (orbit ops z k')"
    unfolding k'_def by (rule LeastI [of _ k]) (use assms in simp)
  have le: "k' \<le> k" unfolding k'_def by (rule Least_le) (use assms in simp)
  have "\<not> escaped ops (orbit ops z j)" if "j \<in> {1..<k'}" for j
  proof
    assume "escaped ops (orbit ops z j)"
    with that have "k' \<le> j" unfolding k'_def by (intro Least_le) simp
    with that show False by simp
  qed
  with P le show ?thesis by (auto simp: first_escape_def)
qed

lemma escape_color_not_Black: "escape_color k n \<noteq> Black"
  by (simp add: escape_color_def Black_def)

lemma mandelbrot_Black_iff:
  "mandelbrot ops g z = Black \<longleftrightarrow> (\<forall>k \<in> {1..iteration_limit g}. \<not> escaped ops (orbit ops z k))"
proof
  assume b: "mandelbrot ops g z = Black"
  show "\<forall>k \<in> {1..iteration_limit g}. \<not> escaped ops (orbit ops z k)"
  proof (rule ballI, rule notI)
    fix k assume "k \<in> {1..iteration_limit g}" and "escaped ops (orbit ops z k)"
    then obtain k' where "k' \<le> k" "first_escape ops z k'"
      using first_escape_exists [of k ops z] by auto
    with \<open>k \<in> _\<close> have "mandelbrot ops g z =
        escape_color (uint8_of (Contrast (RenderOpts (params g)))) (of_nat (k' - 1))"
      by (intro mandelbrot_at_first_escape) auto
    with b show False using escape_color_not_Black by metis
  qed
next
  assume "\<forall>k \<in> {1..iteration_limit g}. \<not> escaped ops (orbit ops z k)"
  then show "mandelbrot ops g z = Black" by (rule mandelbrot_no_escape)
qed

lemma mandelbrot_cases:
  "mandelbrot ops g z = Black \<or>
   (\<exists>n. mandelbrot ops g z = escape_color (uint8_of (Contrast (RenderOpts (params g)))) n)"
proof (cases "\<forall>k \<in> {1..iteration_limit g}. \<not> escaped ops (orbit ops z k)")
  case True
  then show ?thesis by (simp add: mandelbrot_no_escape)
next
  case False
  then obtain k where "k \<in> {1..iteration_limit g}" "escaped ops (orbit ops z k)" by auto
  then obtain k' where "k' \<le> k" "first_escape ops z k'"
    using first_escape_exists [of k ops z] by auto
  with \<open>k \<in> _\<close> have "mandelbrot ops g z =
      escape_color (uint8_of (Contrast (RenderOpts (params g)))) (of_nat (k' - 1))"
    by (intro mandelbrot_at_first_escape) auto
  then show ?thesis by blast
qed

text \<open>No escape colour is opaque black: a zero red channel forces \<open>k\<cdot>n = 64\<close>, and then the
  green channel is 16.\<close>

lemma escape_color_not_opaque_black: "rgbaModel (escape_color k n) \<noteq> RGBA 0 0 0 255"
proof
  assume "rgbaModel (escape_color k n) = RGBA 0 0 0 255"
  then have r: "64 - k * n = 0" and g: "80 - ((k * n) mod 128) = 0"
    by (simp_all add: escape_color_def del: right_minus_eq)
  from r have kn: "k * n = 64" by simp
  from g show False unfolding kn by simp
qed

lemma rgbaModel_Black: "rgbaModel Black = RGBA 0 0 0 255"
  by (simp add: Black_def)

subsection \<open>The loop reads two bytes of the options\<close>

lemma mandelbrot_loop_cong:
  assumes "uint8_of (MaxIterations (RenderOpts (params g'))) =
           uint8_of (MaxIterations (RenderOpts (params g)))"
    and "uint8_of (Contrast (RenderOpts (params g'))) = uint8_of (Contrast (RenderOpts (params g)))"
  shows "mandelbrot_loop ops g' z v n = mandelbrot_loop ops g z v n"
  using assms
proof (induction ops g z v n rule: mandelbrot_loop.induct)
  case (1 ops g z v n)
  show ?case
  proof (cases "n < uint8_of (MaxIterations (RenderOpts (params g)))
                \<and> \<not> escaped ops (cmuladd ops v z)")
    case True
    then have "mandelbrot_loop ops g' z (cmuladd ops v z) (n + 1) =
               mandelbrot_loop ops g z (cmuladd ops v z) (n + 1)"
      using "1.IH" [OF _ refl] "1.prems" by simp
    then show ?thesis
      using True "1.prems"
      by (simp add: mandelbrot_loop.simps [of ops g z v n] mandelbrot_loop.simps [of ops g' z v n])
  next
    case False
    then show ?thesis
      using "1.prems"
      by (auto simp add: mandelbrot_loop.simps [of ops g z v n]
            mandelbrot_loop.simps [of ops g' z v n] Let_def)
  qed
qed

lemma uint8_of_mod: "uint8_of (c mod 256) = uint8_of c"
proof -
  have "uint (uint8_of (c mod 256)) = uint (uint8_of c)"
    unfolding uint8_of_def by (simp only: uint_word_of_int take_bit_eq_mod) simp
  then show ?thesis by (simp only: word_uint_eq_iff)
qed

lemma smod_mod_256: "(c smod 256) mod 256 = (c :: int) mod 256"
proof -
  have "c smod 256 = c mod 256 - 256 * of_bool (sgn c \<noteq> sgn (256 :: int) \<and> \<not> 256 dvd c)"
    by (rule signed_modulo_int_eq_modulo_int)
  then show ?thesis
    by (cases "sgn c \<noteq> sgn (256 :: int) \<and> \<not> 256 dvd c") (simp_all add: mod_diff_eq)
qed

lemma uint8_of_smod: "uint8_of (c smod 256) = uint8_of c"
  using uint8_of_mod [of "c smod 256"] uint8_of_mod [of c] by (simp add: smod_mod_256)

lemma mandelbrot_with_SubPixelSamples:
  "mandelbrot ops (with_SubPixelSamples g s) z = mandelbrot ops g z"
  unfolding mandelbrot_def
  by (intro mandelbrot_loop_cong) (simp_all add: with_SubPixelSamples_def)

subsection \<open>The channels as integers\<close>

lemma uint_contrast_times:
  "uint (uint8_of K * of_nat n :: uint8) = (K * int n) mod 256"
proof -
  have "(uint8_of K * of_nat n :: uint8) = word_of_int (K * int n)"
    by (simp add: uint8_of_def)
  then have "uint (uint8_of K * of_nat n :: uint8) = uint (word_of_int (K * int n) :: uint8)"
    by (rule arg_cong)
  also have "\<dots> = (K * int n) mod 256"
    by (simp only: uint_word_of_int take_bit_eq_mod) simp
  finally show ?thesis .
qed

lemma uint_red: "uint (64 - w :: uint8) = (64 - uint w) mod 256"
  by (simp add: uint_word_ariths)

lemma uint_green: "uint (80 - (w mod 128) :: uint8) = (80 - uint w mod 128) mod 256"
  by (simp add: uint_word_ariths uint_mod)

lemma uint_blue: "uint (240 + (w mod 64) :: uint8) = (240 + uint w mod 64) mod 256"
  by (simp add: uint_word_ariths uint_mod)

lemma green_range:
  fixes m :: int
  assumes "0 \<le> m" "m < 128"
  shows "(80 - m) mod 256 \<le> 80 \<or> 209 \<le> (80 - m) mod 256"
proof (cases "m \<le> 80")
  case True
  with assms have "(80 - m) mod 256 = 80 - m" by simp
  with assms show ?thesis by simp
next
  case False
  have "336 - m = (80 - m) + 256" by simp
  then have "(336 - m) mod 256 = (80 - m) mod 256" by (simp only: mod_add_self2)
  moreover have "(336 - m) mod 256 = 336 - m" using False assms by simp
  ultimately show ?thesis using assms by simp
qed

lemma blue_range:
  fixes m :: int
  assumes "0 \<le> m" "m < 64"
  shows "240 \<le> (240 + m) mod 256 \<or> (240 + m) mod 256 \<le> 47"
proof (cases "m < 16")
  case True
  with assms have "(240 + m) mod 256 = 240 + m" by simp
  with assms show ?thesis by simp
next
  case False
  have "240 + m = (m - 16) + 256" by simp
  then have "(240 + m) mod 256 = (m - 16) mod 256" by (simp only: mod_add_self2)
  moreover have "(m - 16) mod 256 = m - 16" using False assms by simp
  ultimately show ?thesis using assms by simp
qed

subsection \<open>Two points that escape\<close>

text \<open>With \<open>z = 3\<close> the first value is 3; with \<open>z = 1 + i\<close> the values are \<open>1 + i\<close> and
  \<open>1 + 3i\<close>. These are small integers, which floating point represents exactly.\<close>

lemma first_escape_3: "first_escape exact_ops (3, 0) 1"
  by (simp add: first_escape_def exact_ops_def)

lemma orbit_1_1:
  "orbit exact_ops (1, 1) 1 = (1, 1)" "orbit exact_ops (1, 1) 2 = (1, 3)"
  by (simp_all add: exact_ops_def numeral_2_eq_2)

lemma first_escape_1_1: "first_escape exact_ops (1, 1) 2"
proof -
  have "{1..<2::nat} = {1}" by auto
  then show ?thesis
    using orbit_1_1 by (simp add: first_escape_def exact_ops_def)
qed

lemma mandelbrot_default_3:
  "mandelbrot exact_ops default_generator (3, 0) = ColorRGBA (RGBA 64 80 240 255)"
  by code_simp

lemma mandelbrot_contrast_100_1_1:
  "mandelbrot exact_ops (with_Contrast default_generator 100) (1, 1)
     = ColorRGBA (RGBA 220 236 20 255)"
  by code_simp

lemma iteration_limit_default: "iteration_limit default_generator = 200"
  by (simp add: iteration_limit_mod default_generator_def NewDefaultParameters_def)

lemma Contrast_default: "Contrast (RenderOpts (params default_generator)) = 15"
  by (simp add: default_generator_def NewDefaultParameters_def)

subsection \<open>The colour of an escaped point\<close>

text \<open>
  Claim C1, as amended. A point is classified as escaped at the counter value \<open>n\<close> when the
  value after \<open>n + 1\<close> applications of the recurrence is the first whose magnitude exceeds 2
  and \<open>n + 1\<close> is within the loop bound. Its colour then has \<open>R = (64 - contrast\<cdot>n) mod 256\<close>,
  \<open>G = (80 - (contrast\<cdot>n mod 128)) mod 256\<close>, \<open>B = (240 + (contrast\<cdot>n mod 64)) mod 256\<close> and
  \<open>A = 255\<close>: the moduli 128 and 64 apply to the product alone, before the subtraction from
  80 and the addition to 240, and the results wrap at eight bits. So \<open>G\<close> is at most 80 or at
  least 209, and \<open>B\<close> is at least 240 or at most 47.
\<close>

theorem mandelbrot_escaped_channels:
  assumes "first_escape ops z (Suc n)" and "Suc n \<le> iteration_limit g"
  shows "\<exists>c. mandelbrot ops g z = ColorRGBA c
           \<and> uint (R c) = (64 - Contrast (RenderOpts (params g)) * int n) mod 256
           \<and> uint (G c) = (80 - (Contrast (RenderOpts (params g)) * int n) mod 128) mod 256
           \<and> uint (B c) = (240 + (Contrast (RenderOpts (params g)) * int n) mod 64) mod 256
           \<and> A c = 255
           \<and> (uint (G c) \<le> 80 \<or> 209 \<le> uint (G c))
           \<and> (240 \<le> uint (B c) \<or> uint (B c) \<le> 47)"
proof -
  let ?K = "Contrast (RenderOpts (params g))"
  let ?w = "uint8_of ?K * of_nat n :: uint8"
  have m: "mandelbrot ops g z = escape_color (uint8_of ?K) (of_nat n)"
    using mandelbrot_at_first_escape [OF assms] by simp
  have w: "uint ?w = (?K * int n) mod 256" by (rule uint_contrast_times)
  have r: "uint (64 - ?w) = (64 - ?K * int n) mod 256"
    unfolding uint_red w by (simp add: mod_diff_right_eq)
  have "(?K * int n) mod 256 mod 128 = (?K * int n) mod 128"
    by (rule mod_mod_cancel) simp
  then have g: "uint (80 - (?w mod 128)) = (80 - (?K * int n) mod 128) mod 256"
    unfolding uint_green w by simp
  have "(?K * int n) mod 256 mod 64 = (?K * int n) mod 64"
    by (rule mod_mod_cancel) simp
  then have b: "uint (240 + (?w mod 64)) = (240 + (?K * int n) mod 64) mod 256"
    unfolding uint_blue w by simp
  have gr: "(80 - (?K * int n) mod 128) mod 256 \<le> 80
            \<or> 209 \<le> (80 - (?K * int n) mod 128) mod 256"
    by (rule green_range) simp_all
  have br: "240 \<le> (240 + (?K * int n) mod 64) mod 256
            \<or> (240 + (?K * int n) mod 64) mod 256 \<le> 47"
    by (rule blue_range) simp_all
  show ?thesis
    unfolding m escape_color_def using r g b gr br by simp
qed

text \<open>The theorem at \<open>z = 1 + i\<close> with the default options: the escape is at the counter
  value 1, and the colour is \<open>(49, 65, 255, 255)\<close>.\<close>

theorem mandelbrot_escaped_channels_witness:
  "first_escape exact_ops (1, 1) (Suc 1) \<and> Suc 1 \<le> iteration_limit default_generator
   \<and> mandelbrot exact_ops default_generator (1, 1) = ColorRGBA (RGBA 49 65 255 255)"
proof -
  have f: "first_escape exact_ops (1, 1) (Suc 1)"
    using first_escape_1_1 by (simp add: numeral_2_eq_2)
  have l: "Suc 1 \<le> iteration_limit default_generator" by (simp add: iteration_limit_default)
  from mandelbrot_escaped_channels [OF f l]
  obtain c where c: "mandelbrot exact_ops default_generator (1, 1) = ColorRGBA c"
    "uint (R c) = 49" "uint (G c) = 65" "uint (B c) = 255" "A c = 255"
    unfolding Contrast_default by auto
  have "R c = 49" "G c = 65" "B c = 255"
    using c(2-4) by (simp_all add: word_uint_eq_iff)
  with c(1,5) have "mandelbrot exact_ops default_generator (1, 1) = ColorRGBA (RGBA 49 65 255 255)"
    by (cases c) simp
  with f l show ?thesis by simp
qed

text \<open>Claim C1 as it is stated fails. With the default options the point \<open>z = 3\<close> escapes at
  the counter value 0 and gets \<open>B = 240\<close>, where \<open>(240 + contrast\<cdot>n) mod 64\<close> is 48. With
  contrast 100 the point \<open>z = 1 + i\<close> escapes at the counter value 1 and gets \<open>G = 236\<close>,
  where \<open>(80 - contrast\<cdot>n) mod 128\<close> is 108; so \<open>G\<close> is not below 128 either.\<close>

theorem mandelbrot_escaped_channels_counterexample:
  "first_escape exact_ops (3, 0) (Suc 0)
   \<and> mandelbrot exact_ops default_generator (3, 0) = ColorRGBA (RGBA 64 80 240 255)
   \<and> claimed_escape_color (Contrast (RenderOpts (params default_generator))) 0
       = ColorRGBA (RGBA 64 80 48 255)
   \<and> first_escape exact_ops (1, 1) (Suc 1)
   \<and> mandelbrot exact_ops (with_Contrast default_generator 100) (1, 1)
       = ColorRGBA (RGBA 220 236 20 255)
   \<and> claimed_escape_color (Contrast (RenderOpts (params (with_Contrast default_generator 100)))) 1
       = ColorRGBA (RGBA 220 108 20 255)"
proof -
  have f: "first_escape exact_ops (1, 1) (Suc 1)"
    using first_escape_1_1 by (simp add: numeral_2_eq_2)
  have K': "Contrast (RenderOpts (params (with_Contrast default_generator 100))) = 100"
    by (simp add: with_Contrast_def)
  show ?thesis
    unfolding Contrast_default K' mandelbrot_default_3 mandelbrot_contrast_100_1_1
    using f first_escape_3 by (simp add: claimed_escape_color_def)
qed

subsection \<open>Black exactly when nothing escapes within the bound\<close>

text \<open>
  Claim C2, as amended. The loop bound is \<open>maxIterations mod 256\<close>, the value of
  \<^verbatim>\<open>uint8(MaxIterations)\<close>. \<^verbatim>\<open>mandelbrot\<close> returns \<^verbatim>\<open>color.Black\<close> if and only if the magnitude
  does not exceed 2 after any of the first \<open>maxIterations mod 256\<close> applications of the
  recurrence; \<^verbatim>\<open>color.Black\<close> is the only result that is opaque black as an 8-bit colour;
  and the origin is black for every bound, provided that \<open>0\<cdot>0 + 0\<close> is 0 and 0 does not
  exceed 2 in the arithmetic.
\<close>

theorem mandelbrot_black_iff_no_escape:
  "(mandelbrot ops g z = Black \<longleftrightarrow>
      (\<forall>k \<in> {1..nat (MaxIterations (RenderOpts (params g)) mod 256)}.
          \<not> escaped ops (orbit ops z k)))
   \<and> (rgbaModel (mandelbrot ops g z) = RGBA 0 0 0 255 \<longleftrightarrow> mandelbrot ops g z = Black)
   \<and> (cmuladd ops (fzero ops, fzero ops) (fzero ops, fzero ops) = (fzero ops, fzero ops)
        \<and> \<not> escaped ops (fzero ops, fzero ops)
      \<longrightarrow> mandelbrot ops g (fzero ops, fzero ops) = Black)"
proof (intro conjI impI)
  show "mandelbrot ops g z = Black \<longleftrightarrow>
      (\<forall>k \<in> {1..nat (MaxIterations (RenderOpts (params g)) mod 256)}.
          \<not> escaped ops (orbit ops z k))"
    using mandelbrot_Black_iff [of ops g z] by (simp add: iteration_limit_mod)
  show "rgbaModel (mandelbrot ops g z) = RGBA 0 0 0 255 \<longleftrightarrow> mandelbrot ops g z = Black"
    using mandelbrot_cases [of ops g z] escape_color_not_opaque_black escape_color_not_Black
    by (metis rgbaModel_Black)
next
  assume fx: "cmuladd ops (fzero ops, fzero ops) (fzero ops, fzero ops) = (fzero ops, fzero ops)
        \<and> \<not> escaped ops (fzero ops, fzero ops)"
  have "orbit ops (fzero ops, fzero ops) k = (fzero ops, fzero ops)" for k
    by (induction k) (simp_all add: fx)
  with fx show "mandelbrot ops g (fzero ops, fzero ops) = Black"
    by (intro mandelbrot_no_escape) simp
qed

text \<open>The theorem at the origin with the default options.\<close>

theorem mandelbrot_black_iff_no_escape_witness:
  "cmuladd exact_ops (0, 0) (0, 0) = (0, 0) \<and> \<not> escaped exact_ops (0, 0)
   \<and> mandelbrot exact_ops default_generator (0, 0) = Black
   \<and> rgbaModel (mandelbrot exact_ops default_generator (0, 0)) = RGBA 0 0 0 255"
proof -
  have h: "cmuladd exact_ops (fzero exact_ops, fzero exact_ops) (fzero exact_ops, fzero exact_ops)
             = (fzero exact_ops, fzero exact_ops)
           \<and> \<not> escaped exact_ops (fzero exact_ops, fzero exact_ops)"
    by (simp add: exact_ops_def)
  have m: "MaxIterations (RenderOpts (params default_generator)) = 200"
    by (simp add: default_generator_def NewDefaultParameters_def)
  have z: "fzero exact_ops = 0" by (simp add: exact_ops_def)
  show ?thesis
    using mandelbrot_black_iff_no_escape [of exact_ops default_generator "(0, 0)"] h
    unfolding m z by auto
qed

text \<open>Claim C2 as it is stated fails. With \<open>maxIterations = 512\<close> the bound
  \<^verbatim>\<open>uint8(512)\<close> is 0, the loop body never runs, and the point \<open>z = 3\<close>, whose magnitude
  exceeds 2 after the first application, is black.\<close>

theorem mandelbrot_black_counterexample:
  "0 < MaxIterations (RenderOpts (params (with_MaxIterations default_generator 512)))
   \<and> escaped exact_ops (orbit exact_ops (3, 0) 1)
   \<and> 1 \<le> MaxIterations (RenderOpts (params (with_MaxIterations default_generator 512)))
   \<and> mandelbrot exact_ops (with_MaxIterations default_generator 512) (3, 0) = Black"
proof -
  have "mandelbrot exact_ops (with_MaxIterations default_generator 512) (3, 0) = Black"
    by code_simp
  then show ?thesis
    by (simp add: with_MaxIterations_def default_generator_def exact_ops_def)
qed

subsection \<open>The counter at the escape\<close>

text \<open>
  Claim C3, as amended. The counter starts at 0 and is incremented after the test, so for a
  point whose magnitude first exceeds 2 after the \<open>k\<close>-th application of the recurrence
  (\<open>k \<ge> 1\<close>, within the loop bound) \<^verbatim>\<open>mandelbrot\<close> returns the escape colour for the counter
  value \<open>n = k - 1\<close>.
\<close>

theorem mandelbrot_escape_counter:
  assumes "first_escape ops z k" and "k \<le> iteration_limit g"
  shows "\<exists>n. unat n = k - 1
           \<and> mandelbrot ops g z = escape_color (uint8_of (Contrast (RenderOpts (params g)))) n"
proof -
  from assms(2) iteration_limit_less [of g] have "k - 1 < 256" by simp
  then have "unat (of_nat (k - 1) :: uint8) = k - 1"
    by (simp add: unat_of_nat)
  with mandelbrot_at_first_escape [OF assms] show ?thesis by blast
qed

text \<open>The theorem at \<open>z = 1 + i\<close>: the second application escapes, the counter is 1.\<close>

theorem mandelbrot_escape_counter_witness:
  "first_escape exact_ops (1, 1) 2 \<and> 2 \<le> iteration_limit default_generator
   \<and> mandelbrot exact_ops default_generator (1, 1) = escape_color 15 1"
proof -
  have c: "uint8_of (Contrast (RenderOpts (params default_generator))) = 15"
    by (simp add: Contrast_default uint8_of_def)
  have l: "(2 :: nat) \<le> iteration_limit default_generator" by (simp add: iteration_limit_default)
  have u: "n = 1" if "unat n = 2 - 1" for n :: uint8
    using that by (simp add: word_unat_eq_iff)
  from mandelbrot_escape_counter [OF first_escape_1_1 l] u
  show ?thesis using first_escape_1_1 l unfolding c by auto
qed

text \<open>Claim C3 as it is stated fails. The point \<open>z = 3\<close> escapes at the first application,
  \<open>k = 1\<close>; its colour is the formula at \<open>n = 0\<close> and differs from the formula at \<open>n = 1\<close>.\<close>

theorem mandelbrot_escape_counter_counterexample:
  "first_escape exact_ops (3, 0) 1
   \<and> mandelbrot exact_ops default_generator (3, 0)
       = escape_color (uint8_of (Contrast (RenderOpts (params default_generator)))) 0
   \<and> mandelbrot exact_ops default_generator (3, 0)
       \<noteq> escape_color (uint8_of (Contrast (RenderOpts (params default_generator)))) 1"
proof -
  have c: "uint8_of (Contrast (RenderOpts (params default_generator))) = 15"
    by (simp add: Contrast_default uint8_of_def)
  show ?thesis
    unfolding c mandelbrot_default_3 using first_escape_3 by (simp add: escape_color_def)
qed

subsection \<open>Only the low byte of the contrast matters\<close>

text \<open>
  Claim C9. The colour that \<^verbatim>\<open>mandelbrot\<close> returns depends on the contrast only through its
  value modulo 256: replacing the contrast \<open>c\<close> by \<open>c mod 256\<close> changes nothing, whether the
  remainder is the non-negative one or the one of Go's \<^verbatim>\<open>%\<close>, which has the sign of \<open>c\<close>.
\<close>

theorem mandelbrot_contrast_mod_256:
  "mandelbrot ops (with_Contrast g (c mod 256)) z = mandelbrot ops (with_Contrast g c) z
   \<and> mandelbrot ops (with_Contrast g (c smod 256)) z = mandelbrot ops (with_Contrast g c) z"
  unfolding mandelbrot_def
  by (intro conjI mandelbrot_loop_cong) (simp_all add: with_Contrast_def uint8_of_mod uint8_of_smod)

section \<open>Averaging: proofs\<close>

text \<open>Widening an 8-bit channel multiplies it by 257, so that 255 becomes \<open>0xffff\<close>.\<close>

lemma widen8_257: "widen8 x = 257 * ucast x"
proof -
  have "(ucast x :: uint32) OR push_bit 8 (ucast x) = ucast x + push_bit 8 (ucast x)"
    by (rule disjunctive_add_eq_or [symmetric]) (auto simp add: bit_eq_iff bit_simps dest: bit_imp_le_length)
  then show ?thesis by (simp add: widen8_def push_bit_eq_mult)
qed

lemma unat_ucast_8_32: "unat (ucast (x :: uint8) :: uint32) = unat x"
  by (simp add: unsigned_ucast_eq take_bit_nat_eq_self_iff)
     (use unsigned_less [of x, where 'a = nat] in simp)

lemma unat_widen8: "unat (widen8 x) = 257 * unat x"
proof -
  have "unat x < 256" using unsigned_less [of x, where 'a = nat] by simp
  then have "257 * unat x < 2 ^ 32" by simp
  then show ?thesis
    by (simp add: widen8_257 unat_word_ariths unat_ucast_8_32)
qed

lemma unat_widen8_le: "unat (widen8 x) \<le> 65535"
proof -
  have "unat x < 256" using unsigned_less [of x, where 'a = nat] by simp
  then show ?thesis by (simp add: unat_widen8)
qed

lemma unat_ucast_16_32_le: "unat (ucast (y :: uint16) :: uint32) \<le> 65535"
proof -
  have "unat y < 65536" using unsigned_less [of y, where 'a = nat] by simp
  moreover have "unat (ucast y :: uint32) = unat y"
    by (simp add: unsigned_ucast_eq take_bit_nat_eq_self_iff)
       (use unsigned_less [of y, where 'a = nat] in simp)
  ultimately show ?thesis by simp
qed

lemma channel_le:
  "unat (red32 c) \<le> 65535" "unat (green32 c) \<le> 65535"
  "unat (blue32 c) \<le> 65535" "unat (alpha32 c) \<le> 65535"
  by (cases c; simp add: red32_def green32_def blue32_def alpha32_def unat_widen8_le unat_ucast_16_32_le)+

lemma sum_channels_eq:
  "sum_channels cs (r, g, b, a) =
     (r + sum_list (map red32 cs), g + sum_list (map green32 cs),
      b + sum_list (map blue32 cs), a + sum_list (map alpha32 cs))"
proof (induction cs arbitrary: r g b a)
  case Nil
  show ?case by simp
next
  case (Cons c cs)
  obtain cr cg cb ca where c: "Color_RGBA c = (cr, cg, cb, ca)" by (cases "Color_RGBA c") auto
  show ?case
    by (simp add: c Cons.IH red32_def green32_def blue32_def alpha32_def add.assoc)
qed

lemma averageColors_channels:
  assumes "colors \<noteq> []" and "(of_nat (length colors) :: uint32) \<noteq> 0"
  shows "averageColors colors =
           Inr (ColorRGBA (RGBA (average_channel (map red32 colors))
                                (average_channel (map green32 colors))
                                (average_channel (map blue32 colors))
                                (average_channel (map alpha32 colors))))"
  using assms
  by (simp add: averageColors_def sum_channels_eq average_channel_def Let_def)

lemma unat_sum_list_le:
  "(\<Sum>x\<leftarrow>xs. unat (x :: uint32)) < 2 ^ 32 \<Longrightarrow> unat (sum_list xs) = (\<Sum>x\<leftarrow>xs. unat x)"
proof (induction xs)
  case Nil
  show ?case by simp
next
  case (Cons x xs)
  then have "(\<Sum>x\<leftarrow>xs. unat x) < 2 ^ 32" by simp
  with Cons have "unat (sum_list xs) = (\<Sum>x\<leftarrow>xs. unat x)" by simp
  with Cons.prems show ?case by (simp add: unat_word_ariths)
qed

lemma sum_list_bounded:
  "(\<And>x. x \<in> set xs \<Longrightarrow> f x \<le> (b :: nat)) \<Longrightarrow> (\<Sum>x\<leftarrow>xs. f x) \<le> b * length xs"
  by (induction xs) (auto simp: add_mono)

lemma unat_average_channel:
  assumes "xs \<noteq> []" and "length xs \<le> 65537" and "\<And>x. x \<in> set xs \<Longrightarrow> unat x \<le> 65535"
  shows "unat (average_channel xs) = (\<Sum>x\<leftarrow>xs. unat x) div length xs div 256"
proof -
  let ?S = "\<Sum>x\<leftarrow>xs. unat x"
  let ?n = "length xs"
  have n0: "0 < ?n" using assms(1) by simp
  have S: "?S \<le> 65535 * ?n" using sum_list_bounded [of xs unat 65535] assms(3) by simp
  also have "\<dots> \<le> 65535 * 65537" using assms(2) by simp
  finally have S32: "?S < 2 ^ 32" by simp
  have us: "unat (sum_list xs) = ?S" using S32 by (rule unat_sum_list_le)
  have un: "unat (of_nat ?n :: uint32) = ?n" using assms(2) by (simp add: unat_of_nat)
  have q: "unat (sum_list xs div of_nat ?n) = ?S div ?n"
    by (simp add: unat_div us un)
  have "?S div ?n \<le> 65535" using S n0
    by (metis div_le_mono nonzero_mult_div_cancel_right less_numeral_extra(3))
  then have small: "?S div ?n div 256 < 256" by simp
  have "unat (drop_bit 8 (sum_list xs div of_nat ?n)) = ?S div ?n div 256"
    unfolding unat_drop_bit_eq q by (simp add: drop_bit_eq_div)
  then have "unat (average_channel xs) = (?S div ?n div 256) mod 256"
    unfolding average_channel_def
    by (simp add: unsigned_ucast_eq take_bit_eq_mod)
  with small show ?thesis by simp
qed

text \<open>
  Claim C5. For a non-empty list whose length \<^verbatim>\<open>uint32(len(colors))\<close> is not 0,
  \<^verbatim>\<open>averageColors\<close> returns, in each of the channels R, G, B and A, the sum of the widened
  values of the samples, divided by the sample count, with the low eight bits discarded
  after the division, all in \<^verbatim>\<open>uint32\<close> arithmetic. For at most 65537 samples no sum wraps,
  and the channel is the number \<open>(\<Sum> widened) div count div 256\<close>.
\<close>

theorem averageColors_sum_divide_truncate:
  assumes "colors \<noteq> []" and "(of_nat (length colors) :: uint32) \<noteq> 0"
  shows "averageColors colors =
           Inr (ColorRGBA (RGBA (average_channel (map red32 colors))
                                (average_channel (map green32 colors))
                                (average_channel (map blue32 colors))
                                (average_channel (map alpha32 colors))))
         \<and> (length colors \<le> 65537 \<longrightarrow>
              unat (average_channel (map red32 colors))
                = (\<Sum>c\<leftarrow>colors. unat (red32 c)) div length colors div 256
            \<and> unat (average_channel (map green32 colors))
                = (\<Sum>c\<leftarrow>colors. unat (green32 c)) div length colors div 256
            \<and> unat (average_channel (map blue32 colors))
                = (\<Sum>c\<leftarrow>colors. unat (blue32 c)) div length colors div 256
            \<and> unat (average_channel (map alpha32 colors))
                = (\<Sum>c\<leftarrow>colors. unat (alpha32 c)) div length colors div 256)"
proof (intro conjI impI)
  show "averageColors colors =
           Inr (ColorRGBA (RGBA (average_channel (map red32 colors))
                                (average_channel (map green32 colors))
                                (average_channel (map blue32 colors))
                                (average_channel (map alpha32 colors))))"
    using assms by (rule averageColors_channels)
next
  assume l: "length colors \<le> 65537"
  show "unat (average_channel (map red32 colors))
                = (\<Sum>c\<leftarrow>colors. unat (red32 c)) div length colors div 256"
    using unat_average_channel [of "map red32 colors"] assms(1) l channel_le(1)
    by (auto simp: comp_def)
  show "unat (average_channel (map green32 colors))
                = (\<Sum>c\<leftarrow>colors. unat (green32 c)) div length colors div 256"
    using unat_average_channel [of "map green32 colors"] assms(1) l channel_le(2)
    by (auto simp: comp_def)
  show "unat (average_channel (map blue32 colors))
                = (\<Sum>c\<leftarrow>colors. unat (blue32 c)) div length colors div 256"
    using unat_average_channel [of "map blue32 colors"] assms(1) l channel_le(3)
    by (auto simp: comp_def)
  show "unat (average_channel (map alpha32 colors))
                = (\<Sum>c\<leftarrow>colors. unat (alpha32 c)) div length colors div 256"
    using unat_average_channel [of "map alpha32 colors"] assms(1) l channel_le(4)
    by (auto simp: comp_def)
qed


text \<open>The theorem at four samples: one escape colour and three times black.\<close>

theorem averageColors_sum_divide_truncate_witness:
  "[ColorRGBA (RGBA 64 80 240 255), Black, Black, Black] \<noteq> []
   \<and> (of_nat (length [ColorRGBA (RGBA 64 80 240 255), Black, Black, Black]) :: uint32) \<noteq> 0
   \<and> averageColors [ColorRGBA (RGBA 64 80 240 255), Black, Black, Black]
        = Inr (ColorRGBA (RGBA 16 20 60 255))"
proof -
  let ?cs = "[ColorRGBA (RGBA 64 80 240 255), Black, Black, Black]"
  have h1: "?cs \<noteq> []" by simp
  have h2: "(of_nat (length ?cs) :: uint32) \<noteq> 0" by simp
  have w: "widen8 64 = 16448" "widen8 80 = 20560" "widen8 240 = 61680" "widen8 255 = 65535"
    by (simp_all add: widen8_def)
  have "average_channel (map red32 ?cs) = 16" "average_channel (map green32 ?cs) = 20"
    "average_channel (map blue32 ?cs) = 60" "average_channel (map alpha32 ?cs) = 255"
    by (simp_all add: average_channel_def red32_def green32_def blue32_def alpha32_def Black_def w)
  with averageColors_sum_divide_truncate [OF h1 h2] h1 h2 show ?thesis by simp
qed

text \<open>For a list of fewer than \<open>2\<^sup>3\<^sup>2\<close> colours of the two kinds that the program creates,
  \<^verbatim>\<open>averageColors\<close> returns a colour: black for the empty list, and otherwise the divisor
  \<^verbatim>\<open>uint32(len(colors))\<close> is the length.\<close>

lemma averageColors_below_2_32:
  assumes "length colors < 2 ^ 32"
  shows "\<exists>c. averageColors colors = Inr c
           \<and> (colors = [] \<longrightarrow> c = Black)
           \<and> (colors \<noteq> [] \<longrightarrow>
                 0 < unat (of_nat (length colors) :: uint32)
               \<and> unat (of_nat (length colors) :: uint32) = length colors)"
proof (cases "colors = []")
  case True
  then show ?thesis by (simp add: averageColors_def)
next
  case False
  from assms have u: "unat (of_nat (length colors) :: uint32) = length colors"
    by (simp add: unat_of_nat)
  with False have "(of_nat (length colors) :: uint32) \<noteq> 0"
    by (metis length_0_conv unat_0)
  with False u averageColors_channels [of colors] show ?thesis by simp
qed


section \<open>Validation: proofs\<close>

lemma validateParameters_None: "validateParameters ops p = None \<longleftrightarrow> \<not> invalid_parameters ops p"
  by (auto simp: validateParameters_def invalid_parameters_def)

lemma validateParameters_Some:
  "validateParameters ops p = Some e \<Longrightarrow>
     errors_Is e ErrInvalidParameters \<and> take 18 (Error e) = ''invalid parameters''"
  by (auto simp: validateParameters_def split: if_splits)

text \<open>
  Claim C6. \<^verbatim>\<open>NewGenerator\<close> returns an error that wraps \<^verbatim>\<open>ErrInvalidParameters\<close>, with a
  message that starts with \<open>invalid parameters\<close>, and no generator, if and only if the
  viewport is degenerate or inverted, a dimension is not positive or the sample count is not
  positive; otherwise it returns the generator of the parameters. \<^verbatim>\<open>Generate\<close> is a method of
  the generator, so nothing is rendered when validation fails.
\<close>

theorem NewGenerator_invalid_iff:
  "(invalid_parameters ops p \<longleftrightarrow>
      (\<exists>e. NewGenerator ops p = Inl e \<and> errors_Is e ErrInvalidParameters
            \<and> take 18 (Error e) = ''invalid parameters''))
   \<and> (\<not> invalid_parameters ops p \<longleftrightarrow> NewGenerator ops p = Inr \<lparr> params = p \<rparr>)"
proof (cases "validateParameters ops p")
  case None
  then show ?thesis
    using validateParameters_None [of ops p] by (simp add: NewGenerator_def)
next
  case (Some e)
  then have "invalid_parameters ops p" using validateParameters_None [of ops p] by simp
  with Some validateParameters_Some [OF Some] show ?thesis
    by (simp add: NewGenerator_def)
qed

text \<open>The theorem at the default parameters, and at the default parameters with width 0.\<close>

theorem NewGenerator_invalid_iff_witness:
  "invalid_parameters exact_ops ((NewDefaultParameters exact_ops)\<lparr>Size := \<lparr>Width = 0, Height = 1024\<rparr>\<rparr>)
   \<and> NewGenerator exact_ops ((NewDefaultParameters exact_ops)\<lparr>Size := \<lparr>Width = 0, Height = 1024\<rparr>\<rparr>)
       = Inl (Errorf ''invalid parameters: ''
               (Errorf [] ErrInvalidParameters '': invalid image size'') [])
   \<and> NewGenerator exact_ops (NewDefaultParameters exact_ops)
       = Inr \<lparr> params = NewDefaultParameters exact_ops \<rparr>"
proof -
  let ?p = "(NewDefaultParameters exact_ops)\<lparr>Size := \<lparr>Width = 0, Height = 1024\<rparr>\<rparr>"
  have i: "invalid_parameters exact_ops ?p" by (simp add: invalid_parameters_def)
  have v: "\<not> invalid_parameters exact_ops (NewDefaultParameters exact_ops)"
    by (simp add: invalid_parameters_def NewDefaultParameters_def exact_ops_def)
  have e: "NewGenerator exact_ops ?p = Inl (Errorf ''invalid parameters: ''
               (Errorf [] ErrInvalidParameters '': invalid image size'') [])"
    by (simp add: NewGenerator_def validateParameters_def NewDefaultParameters_def exact_ops_def)
  from NewGenerator_invalid_iff [of exact_ops "NewDefaultParameters exact_ops"] v i e
  show ?thesis by simp
qed


section \<open>The image and the rows: proofs\<close>

subsection \<open>Cells of the image\<close>

text \<open>A buffer whose length fits and that the machine provides is allocated, zeroed; a
  buffer length of \<open>2\<^sup>6\<^sup>3\<close> or more is refused on every machine.\<close>

lemma mul3NonNeg_fits:
  assumes "0 < w" "0 < h" "4 * w * h < 2 ^ 63"
  shows "mul3NonNeg 4 w h = 4 * w * h"
proof -
  have "4 * w * 1 \<le> 4 * w * h" using assms(1,2) by (intro mult_left_mono) auto
  then have le: "4 * w \<le> 4 * w * h" by simp
  have "(2 :: int) ^ 63 < 2 ^ 64" by simp
  with le assms(3) have a: "\<not> 2 ^ 64 \<le> 4 * w" and b: "\<not> 2 ^ 64 \<le> 4 * w * h"
    and c: "\<not> 2 ^ 63 \<le> 4 * w * h"
    by linarith+
  have n: "\<not> (4 < (0 :: int) \<or> w < 0 \<or> h < 0)" using assms(1,2) by simp
  show ?thesis
    unfolding mul3NonNeg_def using a b c n by (simp only: if_False)
qed

lemma NewRGBA_Inr:
  assumes "0 < w" "0 < h" "4 * w * h < 2 ^ 63" "make_bytes mach (4 * w * h)"
  shows "\<exists>img. NewRGBA mach (image_Rect 0 0 w h) = Inr img \<and> image_of_size w h img
           \<and> Pix img = replicate (nat (w * h)) (RGBA 0 0 0 0)"
proof -
  have "0 < w * h" using assms(1,2) by (rule mult_pos_pos)
  then have nn: "\<not> 4 * w * h < 0" by linarith
  have d: "max 0 w - min 0 w = w" "max 0 h - min 0 h = h" using assms(1,2) by simp_all
  have "pixelBufferLength 4 (image_Rect 0 0 w h) = Inr (4 * w * h)"
    unfolding pixelBufferLength_def image_Rect_def Let_def
    by (simp only: Rectangle.simps d mul3NonNeg_fits [OF assms(1-3)] nn if_False)
  then show ?thesis
    using assms(4) d
    by (simp add: NewRGBA_def image_Rect_def image_of_size_def)
qed

lemma NewRGBA_huge:
  assumes "0 \<le> w" "0 \<le> h" "2 ^ 63 \<le> 4 * w * h"
  shows "NewRGBA mach (image_Rect 0 0 w h) = Inl HugeOrNegativeDimensions"
proof -
  have "mul3NonNeg 4 w h = - 1" using assms(3) by (simp add: mul3NonNeg_def)
  moreover have "max 0 w - min 0 w = w" "max 0 h - min 0 h = h" using assms(1,2) by simp_all
  ultimately have "pixelBufferLength 4 (image_Rect 0 0 w h) = Inl HugeOrNegativeDimensions"
    by (simp add: pixelBufferLength_def image_Rect_def)
  then show ?thesis by (simp add: NewRGBA_def)
qed

lemma Generate_sched_NewRGBA_panic:
  assumes "NewRGBA mach (image_Rect 0 0 (Width (Size (params g))) (Height (Size (params g))))
             = Inl p"
  shows "Generate_sched ops mach g ctx sched = Inl p"
  using assms by (simp add: Generate_sched_def)

lemma Generate_sched_NewRGBA_Inr:
  assumes "NewRGBA mach (image_Rect 0 0 (Width (Size (params g))) (Height (Size (params g))))
             = Inr img"
    and "make_chan mach (Height (Size (params g)))" and "go_rows mach (Height (Size (params g)))"
  shows "Generate_sched ops mach g ctx sched =
           (case run_rows ops g ctx (halfPixelWidth ops g) (halfPixelHeight ops g) sched (img, []) of
              Inl p \<Rightarrow> Inl p
            | Inr (img', errChan) \<Rightarrow>
                (case errChan of
                   [] \<Rightarrow> Inr (Inr img')
                 | err # _ \<Rightarrow> Inr (Inl (Errorf ''error processing row: '' err []))))"
  using assms by (simp add: Generate_sched_def Let_def halfPixelWidth_def halfPixelHeight_def)

lemma offset_less:
  fixes w h x y :: int
  assumes "0 \<le> x" "x < w" "0 \<le> y" "y < h"
  shows "0 \<le> y * w + x" and "y * w + x < w * h"
proof -
  show "0 \<le> y * w + x" using assms by simp
  have "y + 1 \<le> h" using assms by simp
  then have "(y + 1) * w \<le> h * w" using assms by (intro mult_right_mono) auto
  then show "y * w + x < w * h" using assms by (simp add: algebra_simps)
qed

lemma offset_inj:
  fixes w x y x' y' :: int
  assumes "0 \<le> x" "x < w" "0 \<le> x'" "x' < w" "y * w + x = y' * w + x'"
  shows "x = x' \<and> y = y'"
proof -
  have m: "(y * w + x) mod w = x" and m': "(y' * w + x') mod w = x'"
    using assms(1-4) by simp_all
  have d: "(y * w + x) div w = y" and d': "(y' * w + x') div w = y'"
    using assms(1-4) by simp_all
  have "x = (y' * w + x') mod w" using m by (simp only: assms(5))
  then have "x = x'" by (simp only: m')
  moreover have "y = (y' * w + x') div w" using d by (simp only: assms(5))
  then have "y = y'" by (simp only: d')
  ultimately show ?thesis by simp
qed

lemma In_Rect_size:
  "image_of_size w h img \<Longrightarrow> In_Rect x y (Rect img) \<longleftrightarrow> 0 \<le> x \<and> x < w \<and> 0 \<le> y \<and> y < h"
  by (auto simp: image_of_size_def In_Rect_def)

lemma PixOffset_size:
  "image_of_size w h img \<Longrightarrow> PixOffset img x y = nat (y * w + x)"
  by (simp add: image_of_size_def PixOffset_def)

lemma Set_size: "image_of_size w h img \<Longrightarrow> image_of_size w h (Set img x y c)"
  by (simp add: image_of_size_def Set_def)

lemma RGBAAt_Set:
  assumes "image_of_size w h img"
    and "0 \<le> x" "x < w" "0 \<le> y" "y < h"
    and "0 \<le> x'" "x' < w" "0 \<le> y'" "y' < h"
  shows "RGBAAt (Set img x y c) x' y' =
           (if x' = x \<and> y' = y then rgbaModel c else RGBAAt img x' y')"
proof -
  have s: "image_of_size w h (Set img x y c)" using assms(1) by (rule Set_size)
  have o: "nat (y * w + x) < length (Pix img)"
    using offset_less [OF assms(2-5)] assms(1) by (simp add: image_of_size_def)
  have e: "nat (y' * w + x') = nat (y * w + x) \<longleftrightarrow> x' = x \<and> y' = y"
    using offset_less(1) [OF assms(2-5)] offset_less(1) [OF assms(6-9)]
      offset_inj [OF assms(6,7,2,3), of y' y] by auto
  then have e': "nat (y * w + x) = nat (y' * w + x') \<longleftrightarrow> x' = x \<and> y' = y"
    by (simp add: eq_commute)
  show ?thesis
    using assms o e e'
    by (simp add: RGBAAt_def In_Rect_size [OF s] In_Rect_size [OF assms(1)]
        PixOffset_size [OF s] PixOffset_size [OF assms(1)])
       (simp add: Set_def In_Rect_size [OF assms(1)] PixOffset_size [OF assms(1)] nth_list_update)
qed

subsection \<open>One row\<close>

lemma getSamples_length: "length (getSamples ops g x y sw sh) = 4"
  by (simp add: getSamples_def sample_points_def)

lemma averageColors_getSamples:
  "averageColors (getSamples ops g x y sw sh)
     = Inr (ColorRGBA (average_RGBA (getSamples ops g x y sw sh)))"
proof -
  have "getSamples ops g x y sw sh \<noteq> []"
    using getSamples_length [of ops g x y sw sh] by auto
  moreover have "(of_nat (length (getSamples ops g x y sw sh)) :: uint32) \<noteq> 0"
    by (simp add: getSamples_length)
  ultimately show ?thesis
    unfolding average_RGBA_def by (rule averageColors_channels)
qed

lemma processRow_loop_step:
  assumes "px < Width (Size (params g))" and "\<not> Done ctx py px"
  shows "processRow_loop ops g ctx py y sw sh px img =
           processRow_loop ops g ctx py y sw sh (px + 1)
             (Set img px py (ColorRGBA (average_RGBA (getSamples ops g (plane_x ops g px) y sw sh))))"
  using assms
  by (subst processRow_loop.simps) (simp add: Let_def averageColors_getSamples plane_x_def)

lemma processRow_loop_done:
  assumes "px < Width (Size (params g))" and "Done ctx py px"
  shows "processRow_loop ops g ctx py y sw sh px img = Inr (Some (Err ctx), img)"
  using assms by (subst processRow_loop.simps) simp

lemma processRow_loop_end:
  assumes "\<not> px < Width (Size (params g))"
  shows "processRow_loop ops g ctx py y sw sh px img = Inr (None, img)"
  using assms by (subst processRow_loop.simps) simp

lemma processRow_loop_effect:
  assumes "image_of_size (Width (Size (params g))) (Height (Size (params g))) img"
    and "0 \<le> py" "py < Height (Size (params g))"
    and "0 \<le> px" "px \<le> k" "k \<le> Width (Size (params g))"
    and "\<forall>j. px \<le> j \<and> j < k \<longrightarrow> \<not> Done ctx py j"
    and "k < Width (Size (params g)) \<longrightarrow> Done ctx py k"
  shows "\<exists>img'. processRow_loop ops g ctx py y sw sh px img =
             Inr (if k < Width (Size (params g)) then Some (Err ctx) else None, img')
           \<and> image_of_size (Width (Size (params g))) (Height (Size (params g))) img'
           \<and> (\<forall>x' y'. 0 \<le> x' \<and> x' < Width (Size (params g)) \<and> 0 \<le> y' \<and> y' < Height (Size (params g)) \<longrightarrow>
                 RGBAAt img' x' y' =
                   (if y' = py \<and> px \<le> x' \<and> x' < k
                    then average_RGBA (getSamples ops g (plane_x ops g x') y sw sh)
                    else RGBAAt img x' y'))"
  using assms
proof (induction "nat (k - px)" arbitrary: px img)
  case 0
  then have e: "px = k" by simp
  show ?case
  proof (cases "k < Width (Size (params g))")
    case True
    with 0 e have "processRow_loop ops g ctx py y sw sh px img = Inr (Some (Err ctx), img)"
      by (intro processRow_loop_done) auto
    with True e "0.prems"(1) show ?thesis by auto
  next
    case False
    with e have "processRow_loop ops g ctx py y sw sh px img = Inr (None, img)"
      by (intro processRow_loop_end) auto
    with False e "0.prems"(1) show ?thesis by auto
  qed
next
  case (Suc d)
  let ?W = "Width (Size (params g))" and ?H = "Height (Size (params g))"
  let ?c = "ColorRGBA (average_RGBA (getSamples ops g (plane_x ops g px) y sw sh))"
  let ?img1 = "Set img px py ?c"
  from Suc.hyps(2) have lt: "px < k" by simp
  with Suc.prems have pxW: "px < ?W" and nd: "\<not> Done ctx py px" by auto
  have step: "processRow_loop ops g ctx py y sw sh px img =
              processRow_loop ops g ctx py y sw sh (px + 1) ?img1"
    using pxW nd by (rule processRow_loop_step)
  have s1: "image_of_size ?W ?H ?img1" using Suc.prems(1) by (rule Set_size)
  have d: "d = nat (k - (px + 1))" using Suc.hyps(2) by simp
  have "\<exists>img'. processRow_loop ops g ctx py y sw sh (px + 1) ?img1 =
             Inr (if k < ?W then Some (Err ctx) else None, img')
           \<and> image_of_size ?W ?H img'
           \<and> (\<forall>x' y'. 0 \<le> x' \<and> x' < ?W \<and> 0 \<le> y' \<and> y' < ?H \<longrightarrow>
                 RGBAAt img' x' y' =
                   (if y' = py \<and> px + 1 \<le> x' \<and> x' < k
                    then average_RGBA (getSamples ops g (plane_x ops g x') y sw sh)
                    else RGBAAt ?img1 x' y'))"
    using Suc.prems lt by (intro Suc.hyps(1) [OF d s1]) auto
  then obtain img' where r: "processRow_loop ops g ctx py y sw sh (px + 1) ?img1 =
             Inr (if k < ?W then Some (Err ctx) else None, img')"
    and s': "image_of_size ?W ?H img'"
    and p: "\<And>x' y'. 0 \<le> x' \<Longrightarrow> x' < ?W \<Longrightarrow> 0 \<le> y' \<Longrightarrow> y' < ?H \<Longrightarrow>
                 RGBAAt img' x' y' =
                   (if y' = py \<and> px + 1 \<le> x' \<and> x' < k
                    then average_RGBA (getSamples ops g (plane_x ops g x') y sw sh)
                    else RGBAAt ?img1 x' y')"
    by blast
  have "RGBAAt img' x' y' =
          (if y' = py \<and> px \<le> x' \<and> x' < k
           then average_RGBA (getSamples ops g (plane_x ops g x') y sw sh)
           else RGBAAt img x' y')"
    if "0 \<le> x'" "x' < ?W" "0 \<le> y'" "y' < ?H" for x' y'
  proof -
    have "RGBAAt ?img1 x' y' = (if x' = px \<and> y' = py then rgbaModel ?c else RGBAAt img x' y')"
      using Suc.prems(1) Suc.prems(4) pxW Suc.prems(2,3) that by (rule RGBAAt_Set)
    with p [OF that] lt show ?thesis by auto
  qed
  with step r s' show ?case by auto
qed

subsection \<open>All rows, in any order\<close>

lemma processRow_no_cancel:
  assumes "image_of_size (Width (Size (params g))) (Height (Size (params g))) img"
    and "0 \<le> py" "py < Height (Size (params g))" and "0 \<le> Width (Size (params g))"
    and "\<forall>px. \<not> Done ctx py px"
  shows "\<exists>img'. processRow ops g ctx py img sw sh = Inr (None, img')
           \<and> image_of_size (Width (Size (params g))) (Height (Size (params g))) img'
           \<and> (\<forall>x' y'. 0 \<le> x' \<and> x' < Width (Size (params g)) \<and> 0 \<le> y' \<and> y' < Height (Size (params g)) \<longrightarrow>
                 RGBAAt img' x' y' =
                   (if y' = py
                    then average_RGBA (getSamples ops g (plane_x ops g x') (plane_y ops g py) sw sh)
                    else RGBAAt img x' y'))"
proof -
  let ?W = "Width (Size (params g))"
  have "\<exists>img'. processRow_loop ops g ctx py (plane_y ops g py) sw sh 0 img =
             Inr (if ?W < ?W then Some (Err ctx) else None, img')
           \<and> image_of_size ?W (Height (Size (params g))) img'
           \<and> (\<forall>x' y'. 0 \<le> x' \<and> x' < ?W \<and> 0 \<le> y' \<and> y' < Height (Size (params g)) \<longrightarrow>
                 RGBAAt img' x' y' =
                   (if y' = py \<and> 0 \<le> x' \<and> x' < ?W
                    then average_RGBA (getSamples ops g (plane_x ops g x') (plane_y ops g py) sw sh)
                    else RGBAAt img x' y'))"
    using assms by (intro processRow_loop_effect) auto
  then show ?thesis
    unfolding processRow_def Let_def plane_y_def [symmetric] by auto
qed

lemma run_rows_no_cancel:
  assumes "image_of_size (Width (Size (params g))) (Height (Size (params g))) img"
    and "0 \<le> Width (Size (params g))"
    and "\<forall>py \<in> set sched. 0 \<le> py \<and> py < Height (Size (params g))"
    and "\<forall>py px. \<not> Done ctx py px"
  shows "\<exists>img'. run_rows ops g ctx sw sh sched (img, errs) = Inr (img', errs)
           \<and> image_of_size (Width (Size (params g))) (Height (Size (params g))) img'
           \<and> (\<forall>x' y'. 0 \<le> x' \<and> x' < Width (Size (params g)) \<and> 0 \<le> y' \<and> y' < Height (Size (params g)) \<longrightarrow>
                 RGBAAt img' x' y' =
                   (if y' \<in> set sched
                    then average_RGBA (getSamples ops g (plane_x ops g x') (plane_y ops g y') sw sh)
                    else RGBAAt img x' y'))"
  using assms(1,3)
proof (induction sched arbitrary: img)
  case Nil
  then show ?case by simp
next
  case (Cons py rest)
  let ?W = "Width (Size (params g))" and ?H = "Height (Size (params g))"
  from Cons.prems(2) have py: "0 \<le> py" "py < ?H" by auto
  from processRow_no_cancel [OF Cons.prems(1) py assms(2), of ctx ops sw sh] assms(4)
  obtain img1 where r1: "processRow ops g ctx py img sw sh = Inr (None, img1)"
    and s1: "image_of_size ?W ?H img1"
    and p1: "\<And>x' y'. 0 \<le> x' \<Longrightarrow> x' < ?W \<Longrightarrow> 0 \<le> y' \<Longrightarrow> y' < ?H \<Longrightarrow>
                 RGBAAt img1 x' y' =
                   (if y' = py
                    then average_RGBA (getSamples ops g (plane_x ops g x') (plane_y ops g py) sw sh)
                    else RGBAAt img x' y')"
    by blast
  from Cons.prems(2) have rest: "\<forall>py \<in> set rest. 0 \<le> py \<and> py < ?H" by simp
  from Cons.IH [OF s1 rest]
  obtain img' where r: "run_rows ops g ctx sw sh rest (img1, errs) = Inr (img', errs)"
    and s': "image_of_size ?W ?H img'"
    and p: "\<And>x' y'. 0 \<le> x' \<Longrightarrow> x' < ?W \<Longrightarrow> 0 \<le> y' \<Longrightarrow> y' < ?H \<Longrightarrow>
                 RGBAAt img' x' y' =
                   (if y' \<in> set rest
                    then average_RGBA (getSamples ops g (plane_x ops g x') (plane_y ops g y') sw sh)
                    else RGBAAt img1 x' y')"
    by blast
  have "RGBAAt img' x' y' =
          (if y' \<in> set (py # rest)
           then average_RGBA (getSamples ops g (plane_x ops g x') (plane_y ops g y') sw sh)
           else RGBAAt img x' y')"
    if "0 \<le> x'" "x' < ?W" "0 \<le> y'" "y' < ?H" for x' y'
    using p [OF that] p1 [OF that] by auto
  with r1 r s' show ?case by auto
qed

lemma processRow_cancelled:
  assumes "0 < Width (Size (params g))" and "Done ctx py 0"
  shows "processRow ops g ctx py img sw sh = Inr (Some (Err ctx), img)"
  using assms by (simp add: processRow_def processRow_loop_done)

lemma run_rows_cancelled:
  assumes "0 < Width (Size (params g))" and "\<forall>py \<in> set sched. Done ctx py 0"
  shows "run_rows ops g ctx sw sh sched (img, errs) =
           Inr (img, errs @ replicate (length sched) (Err ctx))"
  using assms(2)
proof (induction sched arbitrary: errs)
  case Nil
  show ?case by simp
next
  case (Cons py rest)
  then have "processRow ops g ctx py img sw sh = Inr (Some (Err ctx), img)"
    using assms(1) by (intro processRow_cancelled) auto
  with Cons show ?case by (simp add: replicate_app_Cons_same)
qed

lemma NewGenerator_Inr:
  assumes "NewGenerator ops p = Inr g"
  shows "params g = p" and "0 < Width (Size p)" and "0 < Height (Size p)"
  using assms
  by (auto simp: NewGenerator_def validateParameters_def split: option.splits if_splits)

lemma set_rows: "set (rows g) = {y. 0 \<le> y \<and> y < Height (Size (params g))}"
  by (auto simp: rows_def)

lemma schedule_rows: "schedule g (rows g)"
  by (simp add: schedule_def rows_def)

lemma alpha32_mandelbrot: "alpha32 (mandelbrot ops g z) = 0xffff"
proof -
  have "widen8 255 = 0xffff" by (simp add: widen8_def)
  then show ?thesis
    using mandelbrot_cases [of ops g z]
    by (auto simp: alpha32_def Black_def escape_color_def)
qed

lemma alpha_getSamples: "A (average_RGBA (getSamples ops g x y sw sh)) = 255"
  by (simp add: average_RGBA_def getSamples_def sample_points_def alpha32_mandelbrot
      average_channel_def)

lemma NewGenerator_NewRGBA:
  assumes "NewGenerator ops p = Inr g" and "allocatable mach p"
  shows "\<exists>img. NewRGBA mach
                  (image_Rect 0 0 (Width (Size (params g))) (Height (Size (params g)))) = Inr img
           \<and> image_of_size (Width (Size (params g))) (Height (Size (params g))) img
           \<and> Pix img = replicate (nat (Width (Size (params g)) * Height (Size (params g))))
                          (RGBA 0 0 0 0)"
  using NewGenerator_Inr [OF assms(1)] assms(2)
  by (intro NewRGBA_Inr) (simp_all add: allocatable_def)

lemma allocatable_rows:
  assumes "NewGenerator ops p = Inr g" and "allocatable mach p"
  shows "make_chan mach (Height (Size (params g)))" and "go_rows mach (Height (Size (params g)))"
  using NewGenerator_Inr(1) [OF assms(1)] assms(2) by (simp_all add: allocatable_def)

lemma Generate_sched_no_cancel:
  assumes "NewGenerator ops p = Inr g" and "allocatable mach p"
    and "schedule g sched" and "\<forall>py px. \<not> Done ctx py px"
  shows "\<exists>img. Generate_sched ops mach g ctx sched = Inr (Inr img)
           \<and> image_of_size (Width (Size p)) (Height (Size p)) img
           \<and> (\<forall>px py. 0 \<le> px \<and> px < Width (Size p) \<and> 0 \<le> py \<and> py < Height (Size p) \<longrightarrow>
                 RGBAAt img px py =
                   average_RGBA (getSamples ops g (plane_x ops g px) (plane_y ops g py)
                                   (halfPixelWidth ops g) (halfPixelHeight ops g)))"
proof -
  note v = NewGenerator_Inr [OF assms(1)]
  let ?W = "Width (Size (params g))" and ?H = "Height (Size (params g))"
  from NewGenerator_NewRGBA [OF assms(1,2)]
  obtain img0 where n: "NewRGBA mach (image_Rect 0 0 ?W ?H) = Inr img0"
    and s0: "image_of_size ?W ?H img0"
    by blast
  have W0: "0 \<le> ?W" using v by simp
  have rows: "\<forall>py \<in> set sched. 0 \<le> py \<and> py < ?H"
    using assms(3) by (simp add: schedule_def set_rows)
  from run_rows_no_cancel [OF s0 W0 rows assms(4),
      of ops "halfPixelWidth ops g" "halfPixelHeight ops g" "[]"]
  obtain img' where r: "run_rows ops g ctx (halfPixelWidth ops g) (halfPixelHeight ops g) sched
                          (img0, []) = Inr (img', [])"
    and s': "image_of_size ?W ?H img'"
    and p: "\<And>x' y'. 0 \<le> x' \<Longrightarrow> x' < ?W \<Longrightarrow> 0 \<le> y' \<Longrightarrow> y' < ?H \<Longrightarrow>
                 RGBAAt img' x' y' =
                   (if y' \<in> set sched
                    then average_RGBA (getSamples ops g (plane_x ops g x') (plane_y ops g y')
                           (halfPixelWidth ops g) (halfPixelHeight ops g))
                    else RGBAAt img0 x' y')"
    by blast
  have g: "Generate_sched ops mach g ctx sched = Inr (Inr img')"
    unfolding Generate_sched_NewRGBA_Inr [OF n allocatable_rows [OF assms(1,2)]] r by simp
  have "RGBAAt img' x' y' = average_RGBA (getSamples ops g (plane_x ops g x') (plane_y ops g y')
                           (halfPixelWidth ops g) (halfPixelHeight ops g))"
    if "0 \<le> x'" "x' < ?W" "0 \<le> y'" "y' < ?H" for x' y'
  proof -
    have "y' \<in> set sched" using assms(3) that by (simp add: schedule_def set_rows)
    with p [OF that] show ?thesis by simp
  qed
  with g s' show ?thesis unfolding v(1) by auto
qed

subsection \<open>The order of the rows does not matter\<close>

text \<open>Two images of the same size with the same pixels are equal, so without cancellation
  every order of the rows gives the image that the order \<open>0, 1, \<dots>\<close> gives.\<close>

lemma cell_of_index:
  fixes w h :: int
  assumes "0 < w" and "i < nat (w * h)"
  shows "0 \<le> int i mod w" "int i mod w < w" "0 \<le> int i div w" "int i div w < h"
    "nat (int i div w * w + int i mod w) = i"
proof -
  show "0 \<le> int i mod w" "int i mod w < w" using assms(1) by simp_all
  show "0 \<le> int i div w" using assms(1) by (simp add: pos_imp_zdiv_nonneg_iff)
  have "int i < w * h" using assms(2) by linarith
  moreover have "w * (int i div w) + int i mod w = int i" by simp
  moreover have "0 \<le> int i mod w" using assms(1) by simp
  ultimately have "w * (int i div w) < w * h" by linarith
  then show "int i div w < h" using assms(1) by (simp add: mult_less_cancel_left_pos)
  show "nat (int i div w * w + int i mod w) = i" by simp
qed

lemma image_eqI:
  assumes a: "image_of_size w h a" and b: "image_of_size w h b" and w: "0 < w"
    and p: "\<And>x y. 0 \<le> x \<Longrightarrow> x < w \<Longrightarrow> 0 \<le> y \<Longrightarrow> y < h \<Longrightarrow> RGBAAt a x y = RGBAAt b x y"
  shows "a = b"
proof -
  have "Pix a = Pix b"
  proof (rule nth_equalityI)
    show "length (Pix a) = length (Pix b)" using a b by (simp add: image_of_size_def)
  next
    fix i assume "i < length (Pix a)"
    then have i: "i < nat (w * h)" using a by (simp add: image_of_size_def)
    note c = cell_of_index [OF w i]
    have "RGBAAt a (int i mod w) (int i div w) = Pix a ! i"
      using c by (simp add: RGBAAt_def In_Rect_size [OF a] PixOffset_size [OF a])
    moreover have "RGBAAt b (int i mod w) (int i div w) = Pix b ! i"
      using c by (simp add: RGBAAt_def In_Rect_size [OF b] PixOffset_size [OF b])
    ultimately show "Pix a ! i = Pix b ! i" using p [OF c(1-4)] by simp
  qed
  with a b show ?thesis by (simp add: image_of_size_def)
qed

lemma Generate_sched_deterministic:
  assumes "NewGenerator ops p = Inr g" and "allocatable mach p"
    and "schedule g sched" and "\<forall>py px. \<not> Done ctx py px"
  shows "Generate_sched ops mach g ctx sched = Generate ops mach g ctx"
proof -
  from Generate_sched_no_cancel [OF assms]
  obtain a where ga: "Generate_sched ops mach g ctx sched = Inr (Inr a)"
    and sa: "image_of_size (Width (Size p)) (Height (Size p)) a"
    and pa: "\<And>px py. 0 \<le> px \<Longrightarrow> px < Width (Size p) \<Longrightarrow> 0 \<le> py \<Longrightarrow> py < Height (Size p) \<Longrightarrow>
                 RGBAAt a px py =
                   average_RGBA (getSamples ops g (plane_x ops g px) (plane_y ops g py)
                                   (halfPixelWidth ops g) (halfPixelHeight ops g))"
    by blast
  from Generate_sched_no_cancel [OF assms(1,2) schedule_rows assms(4)]
  obtain b where gb: "Generate_sched ops mach g ctx (rows g) = Inr (Inr b)"
    and sb: "image_of_size (Width (Size p)) (Height (Size p)) b"
    and pb: "\<And>px py. 0 \<le> px \<Longrightarrow> px < Width (Size p) \<Longrightarrow> 0 \<le> py \<Longrightarrow> py < Height (Size p) \<Longrightarrow>
                 RGBAAt b px py =
                   average_RGBA (getSamples ops g (plane_x ops g px) (plane_y ops g py)
                                   (halfPixelWidth ops g) (halfPixelHeight ops g))"
    by blast
  have "a = b"
    using sa sb NewGenerator_Inr(2) [OF assms(1)]
    by (rule image_eqI) (simp add: pa pb)
  with ga gb show ?thesis by (simp add: Generate_def)
qed

subsection \<open>The sample count option is not read\<close>

lemma getSamples_with_SubPixelSamples:
  "getSamples ops (with_SubPixelSamples g s) x y sw sh = getSamples ops g x y sw sh"
  by (simp add: getSamples_def mandelbrot_with_SubPixelSamples)

lemma params_with_SubPixelSamples:
  "Size (params (with_SubPixelSamples g s)) = Size (params g)"
  "ViewPort (params (with_SubPixelSamples g s)) = ViewPort (params g)"
  by (simp_all add: with_SubPixelSamples_def)

lemma processRow_loop_with_SubPixelSamples:
  "processRow_loop ops (with_SubPixelSamples g s) ctx py y sw sh px img =
   processRow_loop ops g ctx py y sw sh px img"
proof (induction ops g ctx py y sw sh px img rule: processRow_loop.induct)
  case (1 ops g ctx py y sw sh px img)
  show ?case
  proof (cases "px < Width (Size (params g)) \<and> \<not> Done ctx py px")
    case True
    then have t: "px < Width (Size (params g))" "\<not> Done ctx py px" by simp_all
    let ?c = "ColorRGBA (average_RGBA (getSamples ops g (plane_x ops g px) y sw sh))"
    have "processRow_loop ops (with_SubPixelSamples g s) ctx py y sw sh (px + 1) (Set img px py ?c)
          = processRow_loop ops g ctx py y sw sh (px + 1) (Set img px py ?c)"
      using t by (intro "1.IH" [OF t refl refl]) (simp add: averageColors_getSamples plane_x_def)
    moreover have "plane_x ops (with_SubPixelSamples g s) px = plane_x ops g px"
      by (simp add: plane_x_def params_with_SubPixelSamples)
    ultimately show ?thesis
      using t
      by (simp add: processRow_loop_step params_with_SubPixelSamples
            getSamples_with_SubPixelSamples)
  next
    case False
    show ?thesis
    proof (cases "px < Width (Size (params g))")
      case True
      with False have "Done ctx py px" by simp
      with True show ?thesis
        by (simp add: processRow_loop_done params_with_SubPixelSamples)
    next
      case False
      then show ?thesis
        by (simp add: processRow_loop_end params_with_SubPixelSamples)
    qed
  qed
qed

lemma processRow_with_SubPixelSamples:
  "processRow ops (with_SubPixelSamples g s) ctx py img sw sh = processRow ops g ctx py img sw sh"
  by (simp add: processRow_def processRow_loop_with_SubPixelSamples params_with_SubPixelSamples
      del: processRow_loop.simps)

lemma run_rows_with_SubPixelSamples:
  "run_rows ops (with_SubPixelSamples g s) ctx sw sh sched st = run_rows ops g ctx sw sh sched st"
proof (induction sched arbitrary: st)
  case Nil
  show ?case by simp
next
  case (Cons py rest)
  obtain img errs where st: "st = (img, errs)" by (cases st)
  show ?case
    unfolding st by (simp add: processRow_with_SubPixelSamples Cons.IH split: sum.splits prod.splits)
qed

lemma Generate_sched_with_SubPixelSamples:
  "Generate_sched ops mach (with_SubPixelSamples g s) ctx sched =
   Generate_sched ops mach g ctx sched"
  by (simp add: Generate_sched_def run_rows_with_SubPixelSamples params_with_SubPixelSamples
      split: sum.split)

lemma Generate_with_SubPixelSamples:
  "Generate ops mach (with_SubPixelSamples g s) ctx = Generate ops mach g ctx"
  by (simp add: Generate_def rows_def Generate_sched_with_SubPixelSamples
      params_with_SubPixelSamples)

subsection \<open>A small render and a huge one\<close>

lemma NewGenerator_tiny: "NewGenerator exact_ops tiny_parameters = Inr tiny_generator"
  by (simp add: NewGenerator_def validateParameters_def tiny_generator_def tiny_parameters_def
      NewDefaultParameters_def exact_ops_def)

lemma schedule_tiny: "schedule tiny_generator [1, 0]"
proof -
  have "[0..1] = [0, 1 :: int]" by (simp add: upto.simps)
  then show ?thesis
    by (auto simp add: schedule_def rows_def tiny_generator_def tiny_parameters_def)
qed

lemma never_done_simp: "\<forall>py px. \<not> Done never_done py px"
  by (simp add: never_done_def)

lemma tiny_size: "Width (Size tiny_parameters) = 2" "Height (Size tiny_parameters) = 2"
  by (simp_all add: tiny_parameters_def)

lemma allocatable_tiny: "allocatable roomy_machine tiny_parameters"
  by (simp add: allocatable_def tiny_size roomy_machine_def)

lemma Generate_tiny:
  "Generate_sched exact_ops roomy_machine tiny_generator never_done [1, 0] =
     Inr (Inr \<lparr> Pix = [RGBA 56 72 184 255, RGBA 40 52 188 255,
                        RGBA 24 32 63 255, RGBA 20 28 67 255],
                 Stride = 2,
                 Rect = \<lparr> MinX = 0, MinY = 0, MaxX = 2, MaxY = 2 \<rparr> \<rparr>)"
  by code_simp

lemma tiny_first_pixel:
  "average_RGBA (getSamples exact_ops tiny_generator
      (plane_x exact_ops tiny_generator 0) (plane_y exact_ops tiny_generator 0) 1 1)
     = RGBA 56 72 184 255"
  by code_simp

text \<open>Validation accepts \<open>2\<^sup>3\<^sup>1\<close> by \<open>2\<^sup>3\<^sup>1\<close> pixels, and \<^verbatim>\<open>Generate\<close> then panics in
  \<^verbatim>\<open>image.NewRGBA\<close>, whatever the context and whatever the machine provides.\<close>

lemma NewGenerator_huge: "NewGenerator exact_ops huge_parameters = Inr huge_generator"
  by (simp add: NewGenerator_def validateParameters_def huge_generator_def huge_parameters_def
      NewDefaultParameters_def exact_ops_def)

lemma Generate_huge:
  "Generate ops mach huge_generator ctx = Inl HugeOrNegativeDimensions"
  unfolding Generate_def
  by (rule Generate_sched_NewRGBA_panic, rule NewRGBA_huge)
     (simp_all add: huge_generator_def huge_parameters_def)

subsection \<open>The four sample points of a pixel\<close>

text \<open>
  Claim C4. \<^verbatim>\<open>getSamples\<close> builds exactly four samples, whatever the value of
  \<^verbatim>\<open>SubPixelSamples\<close>: \<^verbatim>\<open>mandelbrot\<close> at \<open>(x, y)\<close>, at \<open>(x + samplingWidth, y)\<close>, at
  \<open>(x + samplingWidth, y + samplingHeight)\<close> and at \<open>(x, y + samplingHeight)\<close>. For a generator
  that validation accepts and that the machine can render, any order of the rows and no
  cancellation, the row renderer calls it for every pixel \<open>(px, py)\<close> with the pixel's plane
  coordinate \<open>(x, y)\<close>, \<open>samplingWidth = 0.5 / width \<cdot> (xMax - xMin)\<close> and
  \<open>samplingHeight = 0.5 / height \<cdot> (yMax - yMin)\<close>: the colour stored at the pixel is the
  average of these four samples, and the image is the same whatever the value of
  \<^verbatim>\<open>SubPixelSamples\<close>.
\<close>

theorem four_supersample_points:
  "getSamples ops g x y sw sh =
     [mandelbrot ops g (x, y),
      mandelbrot ops g (fadd ops x sw, y),
      mandelbrot ops g (fadd ops x sw, fadd ops y sh),
      mandelbrot ops g (x, fadd ops y sh)]
   \<and> length (getSamples ops g x y sw sh) = 4
   \<and> getSamples ops (with_SubPixelSamples g s) x y sw sh = getSamples ops g x y sw sh
   \<and> (NewGenerator ops p = Inr g \<and> allocatable mach p \<and> schedule g sched
        \<and> (\<forall>py px. \<not> Done ctx py px)
        \<and> 0 \<le> px \<and> px < Width (Size p) \<and> 0 \<le> py \<and> py < Height (Size p)
      \<longrightarrow> (\<exists>img. Generate ops mach g ctx = Inr (Inr img)
             \<and> Generate_sched ops mach g ctx sched = Inr (Inr img)
             \<and> Generate ops mach (with_SubPixelSamples g s) ctx = Inr (Inr img)
             \<and> Generate_sched ops mach (with_SubPixelSamples g s) ctx sched = Inr (Inr img)
             \<and> averageColors
                 (getSamples ops g
                    (fadd ops
                       (fmul ops (fdiv ops (of_int_f ops px) (of_int_f ops (Width (Size p))))
                                 (fsub ops (XMax (ViewPort p)) (XMin (ViewPort p))))
                       (XMin (ViewPort p)))
                    (fadd ops
                       (fmul ops (fdiv ops (of_int_f ops py) (of_int_f ops (Height (Size p))))
                                 (fsub ops (YMax (ViewPort p)) (YMin (ViewPort p))))
                       (YMin (ViewPort p)))
                    (fmul ops (fdiv ops (fhalf ops) (of_int_f ops (Width (Size p))))
                              (fsub ops (XMax (ViewPort p)) (XMin (ViewPort p))))
                    (fmul ops (fdiv ops (fhalf ops) (of_int_f ops (Height (Size p))))
                              (fsub ops (YMax (ViewPort p)) (YMin (ViewPort p)))))
               = Inr (ColorRGBA (RGBAAt img px py))))"
proof (intro conjI impI)
  show "getSamples ops g x y sw sh =
     [mandelbrot ops g (x, y),
      mandelbrot ops g (fadd ops x sw, y),
      mandelbrot ops g (fadd ops x sw, fadd ops y sh),
      mandelbrot ops g (x, fadd ops y sh)]"
    by (simp add: getSamples_def sample_points_def)
  show "length (getSamples ops g x y sw sh) = 4" by (rule getSamples_length)
  show "getSamples ops (with_SubPixelSamples g s) x y sw sh = getSamples ops g x y sw sh"
    by (rule getSamples_with_SubPixelSamples)
next
  assume a: "NewGenerator ops p = Inr g \<and> allocatable mach p \<and> schedule g sched
        \<and> (\<forall>py px. \<not> Done ctx py px)
        \<and> 0 \<le> px \<and> px < Width (Size p) \<and> 0 \<le> py \<and> py < Height (Size p)"
  then have h: "NewGenerator ops p = Inr g" "allocatable mach p" "schedule g sched"
    "\<forall>py px. \<not> Done ctx py px"
    and r: "0 \<le> px" "px < Width (Size p)" "0 \<le> py" "py < Height (Size p)"
    by simp_all
  note v = NewGenerator_Inr [OF h(1)]
  from Generate_sched_no_cancel [OF h]
  obtain img where g: "Generate_sched ops mach g ctx sched = Inr (Inr img)"
    and p: "\<And>px py. 0 \<le> px \<Longrightarrow> px < Width (Size p) \<Longrightarrow> 0 \<le> py \<Longrightarrow> py < Height (Size p) \<Longrightarrow>
                 RGBAAt img px py =
                   average_RGBA (getSamples ops g (plane_x ops g px) (plane_y ops g py)
                                   (halfPixelWidth ops g) (halfPixelHeight ops g))"
    by blast
  have "averageColors (getSamples ops g (plane_x ops g px) (plane_y ops g py)
                         (halfPixelWidth ops g) (halfPixelHeight ops g))
          = Inr (ColorRGBA (RGBAAt img px py))"
    unfolding p [OF r] by (rule averageColors_getSamples)
  moreover have "Generate ops mach g ctx = Inr (Inr img)"
    using Generate_sched_deterministic [OF h] g by simp
  ultimately show "\<exists>img. Generate ops mach g ctx = Inr (Inr img)
             \<and> Generate_sched ops mach g ctx sched = Inr (Inr img)
             \<and> Generate ops mach (with_SubPixelSamples g s) ctx = Inr (Inr img)
             \<and> Generate_sched ops mach (with_SubPixelSamples g s) ctx sched = Inr (Inr img)
             \<and> averageColors
                 (getSamples ops g
                    (fadd ops
                       (fmul ops (fdiv ops (of_int_f ops px) (of_int_f ops (Width (Size p))))
                                 (fsub ops (XMax (ViewPort p)) (XMin (ViewPort p))))
                       (XMin (ViewPort p)))
                    (fadd ops
                       (fmul ops (fdiv ops (of_int_f ops py) (of_int_f ops (Height (Size p))))
                                 (fsub ops (YMax (ViewPort p)) (YMin (ViewPort p))))
                       (YMin (ViewPort p)))
                    (fmul ops (fdiv ops (fhalf ops) (of_int_f ops (Width (Size p))))
                              (fsub ops (XMax (ViewPort p)) (XMin (ViewPort p))))
                    (fmul ops (fdiv ops (fhalf ops) (of_int_f ops (Height (Size p))))
                              (fsub ops (YMax (ViewPort p)) (YMin (ViewPort p)))))
               = Inr (ColorRGBA (RGBAAt img px py))"
    using g
    by (simp add: Generate_sched_with_SubPixelSamples Generate_with_SubPixelSamples
        plane_x_def plane_y_def halfPixelWidth_def halfPixelHeight_def v(1))
qed

text \<open>The theorem on the small render, at the pixel \<open>(1, 0)\<close>: its plane coordinate is
  \<open>(0, -2)\<close>, half a pixel is 1 each way, and its sample points are \<open>(0, -2)\<close>, \<open>(1, -2)\<close>,
  \<open>(1, -1)\<close> and \<open>(0, -1)\<close>.\<close>

theorem four_supersample_points_witness:
  "NewGenerator exact_ops tiny_parameters = Inr tiny_generator
   \<and> allocatable roomy_machine tiny_parameters
   \<and> schedule tiny_generator [1, 0]
   \<and> getSamples exact_ops tiny_generator 0 (- 2) 1 1 =
       [mandelbrot exact_ops tiny_generator (0, - 2),
        mandelbrot exact_ops tiny_generator (1, - 2),
        mandelbrot exact_ops tiny_generator (1, - 1),
        mandelbrot exact_ops tiny_generator (0, - 1)]
   \<and> averageColors (getSamples exact_ops tiny_generator 0 (- 2) 1 1)
       = Inr (ColorRGBA (RGBA 40 52 188 255))"
proof -
  note t = four_supersample_points [of exact_ops tiny_generator 0 "- 2" 1 1 7 tiny_parameters
      roomy_machine "[1, 0]" never_done 1 0]
  have e: "fadd exact_ops (0 :: rat) 1 = 1" "fadd exact_ops (- 2 :: rat) 1 = - 1"
    by (simp_all add: exact_ops_def)
  from t have l: "getSamples exact_ops tiny_generator 0 (- 2) 1 1 =
       [mandelbrot exact_ops tiny_generator (0, - 2),
        mandelbrot exact_ops tiny_generator (1, - 2),
        mandelbrot exact_ops tiny_generator (1, - 1),
        mandelbrot exact_ops tiny_generator (0, - 1)]"
    unfolding e by blast
  have c: "fadd exact_ops
             (fmul exact_ops (fdiv exact_ops (of_int_f exact_ops 1)
                                (of_int_f exact_ops (Width (Size tiny_parameters))))
                (fsub exact_ops (XMax (ViewPort tiny_parameters)) (XMin (ViewPort tiny_parameters))))
             (XMin (ViewPort tiny_parameters)) = 0"
    "fadd exact_ops
             (fmul exact_ops (fdiv exact_ops (of_int_f exact_ops 0)
                                (of_int_f exact_ops (Height (Size tiny_parameters))))
                (fsub exact_ops (YMax (ViewPort tiny_parameters)) (YMin (ViewPort tiny_parameters))))
             (YMin (ViewPort tiny_parameters)) = - 2"
    "fmul exact_ops (fdiv exact_ops (fhalf exact_ops) (of_int_f exact_ops (Width (Size tiny_parameters))))
        (fsub exact_ops (XMax (ViewPort tiny_parameters)) (XMin (ViewPort tiny_parameters))) = 1"
    "fmul exact_ops (fdiv exact_ops (fhalf exact_ops) (of_int_f exact_ops (Height (Size tiny_parameters))))
        (fsub exact_ops (YMax (ViewPort tiny_parameters)) (YMin (ViewPort tiny_parameters))) = 1"
    by (simp_all add: tiny_parameters_def NewDefaultParameters_def exact_ops_def)
  from t NewGenerator_tiny allocatable_tiny schedule_tiny never_done_simp
  obtain img where g: "Generate_sched exact_ops roomy_machine tiny_generator never_done [1, 0]
                         = Inr (Inr img)"
    and p: "averageColors (getSamples exact_ops tiny_generator 0 (- 2) 1 1)
              = Inr (ColorRGBA (RGBAAt img 1 0))"
    unfolding c by (auto simp add: tiny_size)
  from g have img: "img = \<lparr> Pix = [RGBA 56 72 184 255, RGBA 40 52 188 255,
                          RGBA 24 32 63 255, RGBA 20 28 67 255],
                   Stride = 2,
                   Rect = \<lparr> MinX = 0, MinY = 0, MaxX = 2, MaxY = 2 \<rparr> \<rparr>"
    unfolding Generate_tiny by simp
  have "RGBAAt img 1 0 = RGBA 40 52 188 255"
    unfolding img by (simp add: RGBAAt_def In_Rect_def PixOffset_def)
  with p l NewGenerator_tiny allocatable_tiny schedule_tiny show ?thesis by simp
qed

subsection \<open>Every pixel is written\<close>

text \<open>
  Claim C7, as amended. For a generator that validation accepts and that the machine can
  render (the pixel buffer of \<open>4 \<cdot> width \<cdot> height\<close> bytes fits in an \<^verbatim>\<open>int\<close>, and the machine
  provides it, the error channel and the row tasks), any order of the rows and no cancellation,
  \<^verbatim>\<open>Generate\<close> returns an image on the rectangle from \<open>(0, 0)\<close> to \<open>(width, height)\<close> with
  \<open>width \<cdot> height\<close> cells, and every pixel \<open>(px, py)\<close> in the rectangle holds the average of its
  supersamples. That colour has alpha 255, so no cell is left at its initial value, which
  is \<open>(0, 0, 0, 0)\<close>.
\<close>

theorem Generate_fills_every_pixel:
  assumes "NewGenerator ops p = Inr g" and "allocatable mach p"
    and "schedule g sched" and "\<forall>py px. \<not> Done ctx py px"
  shows "\<exists>img. Generate ops mach g ctx = Inr (Inr img)
           \<and> Generate_sched ops mach g ctx sched = Inr (Inr img)
           \<and> Rect img = \<lparr> MinX = 0, MinY = 0, MaxX = Width (Size p), MaxY = Height (Size p) \<rparr>
           \<and> length (Pix img) = nat (Width (Size p) * Height (Size p))
           \<and> (\<forall>px py. 0 \<le> px \<and> px < Width (Size p) \<and> 0 \<le> py \<and> py < Height (Size p) \<longrightarrow>
                 averageColors (getSamples ops g (plane_x ops g px) (plane_y ops g py)
                                  (halfPixelWidth ops g) (halfPixelHeight ops g))
                   = Inr (ColorRGBA (RGBAAt img px py))
                 \<and> A (RGBAAt img px py) = 255
                 \<and> RGBAAt img px py \<noteq> RGBA 0 0 0 0)"
proof -
  from Generate_sched_no_cancel [OF assms]
  obtain img where g: "Generate_sched ops mach g ctx sched = Inr (Inr img)"
    and s: "image_of_size (Width (Size p)) (Height (Size p)) img"
    and p: "\<And>px py. 0 \<le> px \<Longrightarrow> px < Width (Size p) \<Longrightarrow> 0 \<le> py \<Longrightarrow> py < Height (Size p) \<Longrightarrow>
                 RGBAAt img px py =
                   average_RGBA (getSamples ops g (plane_x ops g px) (plane_y ops g py)
                                   (halfPixelWidth ops g) (halfPixelHeight ops g))"
    by blast
  have "averageColors (getSamples ops g (plane_x ops g px) (plane_y ops g py)
                                  (halfPixelWidth ops g) (halfPixelHeight ops g))
                   = Inr (ColorRGBA (RGBAAt img px py))
        \<and> A (RGBAAt img px py) = 255 \<and> RGBAAt img px py \<noteq> RGBA 0 0 0 0"
    if "0 \<le> px" "px < Width (Size p)" "0 \<le> py" "py < Height (Size p)" for px py
  proof -
    have a: "A (RGBAAt img px py) = 255" unfolding p [OF that] by (rule alpha_getSamples)
    then have "RGBAAt img px py \<noteq> RGBA 0 0 0 0" by auto
    with a show ?thesis unfolding p [OF that] by (simp add: averageColors_getSamples)
  qed
  moreover have "Generate ops mach g ctx = Inr (Inr img)"
    using Generate_sched_deterministic [OF assms] g by simp
  ultimately show ?thesis using g s by (auto simp: image_of_size_def)
qed

text \<open>The theorem on the small render, with the rows run in the order 1, 0.\<close>

theorem Generate_fills_every_pixel_witness:
  "NewGenerator exact_ops tiny_parameters = Inr tiny_generator
   \<and> allocatable roomy_machine tiny_parameters
   \<and> schedule tiny_generator [1, 0]
   \<and> Generate_sched exact_ops roomy_machine tiny_generator never_done [1, 0] =
       Inr (Inr \<lparr> Pix = [RGBA 56 72 184 255, RGBA 40 52 188 255,
                          RGBA 24 32 63 255, RGBA 20 28 67 255],
                   Stride = 2,
                   Rect = \<lparr> MinX = 0, MinY = 0, MaxX = 2, MaxY = 2 \<rparr> \<rparr>)
   \<and> Generate exact_ops roomy_machine tiny_generator never_done =
       Inr (Inr \<lparr> Pix = [RGBA 56 72 184 255, RGBA 40 52 188 255,
                          RGBA 24 32 63 255, RGBA 20 28 67 255],
                   Stride = 2,
                   Rect = \<lparr> MinX = 0, MinY = 0, MaxX = 2, MaxY = 2 \<rparr> \<rparr>)
   \<and> averageColors (getSamples exact_ops tiny_generator
         (plane_x exact_ops tiny_generator 1) (plane_y exact_ops tiny_generator 1)
         (halfPixelWidth exact_ops tiny_generator) (halfPixelHeight exact_ops tiny_generator))
       = Inr (ColorRGBA (RGBA 20 28 67 255))"
proof -
  from Generate_fills_every_pixel
         [OF NewGenerator_tiny allocatable_tiny schedule_tiny never_done_simp]
  obtain img where g: "Generate_sched exact_ops roomy_machine tiny_generator never_done [1, 0]
                         = Inr (Inr img)"
    and g': "Generate exact_ops roomy_machine tiny_generator never_done = Inr (Inr img)"
    and p: "\<And>px py. 0 \<le> px \<and> px < 2 \<and> 0 \<le> py \<and> py < 2 \<Longrightarrow>
              averageColors (getSamples exact_ops tiny_generator
                  (plane_x exact_ops tiny_generator px) (plane_y exact_ops tiny_generator py)
                  (halfPixelWidth exact_ops tiny_generator) (halfPixelHeight exact_ops tiny_generator))
                = Inr (ColorRGBA (RGBAAt img px py))"
    unfolding tiny_size by blast
  from g have img: "img = \<lparr> Pix = [RGBA 56 72 184 255, RGBA 40 52 188 255,
                          RGBA 24 32 63 255, RGBA 20 28 67 255],
                   Stride = 2,
                   Rect = \<lparr> MinX = 0, MinY = 0, MaxX = 2, MaxY = 2 \<rparr> \<rparr>"
    unfolding Generate_tiny by simp
  have "RGBAAt img 1 1 = RGBA 20 28 67 255"
    unfolding img by (simp add: RGBAAt_def In_Rect_def PixOffset_def)
  with p [of 1 1] g' NewGenerator_tiny allocatable_tiny schedule_tiny Generate_tiny
  show ?thesis unfolding img by simp
qed

text \<open>Claim C7 as it is stated fails. Validation accepts the default parameters on \<open>2\<^sup>3\<^sup>1\<close> by
  \<open>2\<^sup>3\<^sup>1\<close> pixels; the buffer length \<open>4 \<cdot> 2\<^sup>3\<^sup>1 \<cdot> 2\<^sup>3\<^sup>1 = 2\<^sup>6\<^sup>4\<close> overflows \<^verbatim>\<open>int\<close>, and without any
  cancellation \<^verbatim>\<open>Generate\<close> panics in \<^verbatim>\<open>image.NewRGBA\<close> and returns no image.\<close>

theorem Generate_fills_every_pixel_counterexample:
  "NewGenerator exact_ops huge_parameters = Inr huge_generator
   \<and> Width (Size huge_parameters) = 2 ^ 31 \<and> Height (Size huge_parameters) = 2 ^ 31
   \<and> Generate exact_ops roomy_machine huge_generator never_done
       = Inl HugeOrNegativeDimensions"
  using NewGenerator_huge Generate_huge [of exact_ops roomy_machine never_done]
  by (simp add: huge_parameters_def)

subsection \<open>Cancellation\<close>

lemma errors_Is_refl: "errors_Is e e"
  by (cases e) simp_all

text \<open>
  Claim C8, as amended. For a generator that validation accepts and any order of the rows:
  if the machine can render the parameters (the pixel buffer of \<open>4 \<cdot> width \<cdot> height\<close> bytes
  fits in an \<^verbatim>\<open>int\<close>, and the machine provides it, the error channel and the row tasks) and
  the context is already cancelled when rendering starts, \<^verbatim>\<open>Generate\<close> returns no image but the error \<open>error processing row: \<close> wrapping the
  error of the context. Within a row the context is checked before each pixel: if the
  check before pixel \<open>k\<close> is the first to see the cancellation, the row returns the error of
  the context, the pixels before \<open>k\<close> hold their colours and every other cell of the image is
  as it was.
\<close>

theorem Generate_cancelled:
  assumes "NewGenerator ops p = Inr g" and "schedule g sched"
  shows "(allocatable mach p \<and> (\<forall>py px. Done ctx py px) \<longrightarrow>
            Generate ops mach g ctx
              = Inr (Inl (Errorf ''error processing row: '' (Err ctx) []))
            \<and> Generate_sched ops mach g ctx sched
                = Inr (Inl (Errorf ''error processing row: '' (Err ctx) []))
            \<and> errors_Is (Errorf ''error processing row: '' (Err ctx) []) (Err ctx))
       \<and> (\<forall>img py k.
             image_of_size (Width (Size p)) (Height (Size p)) img
             \<and> 0 \<le> py \<and> py < Height (Size p) \<and> 0 \<le> k \<and> k < Width (Size p)
             \<and> (\<forall>j. 0 \<le> j \<and> j < k \<longrightarrow> \<not> Done ctx py j) \<and> Done ctx py k
           \<longrightarrow> (\<exists>img'. processRow ops g ctx py img sw sh = Inr (Some (Err ctx), img')
                  \<and> (\<forall>x y. 0 \<le> x \<and> x < Width (Size p) \<and> 0 \<le> y \<and> y < Height (Size p) \<longrightarrow>
                        RGBAAt img' x y =
                          (if y = py \<and> x < k
                           then average_RGBA (getSamples ops g (plane_x ops g x) (plane_y ops g py) sw sh)
                           else RGBAAt img x y))))"
proof (intro conjI impI allI)
  note v = NewGenerator_Inr [OF assms(1)]
  assume ad: "allocatable mach p \<and> (\<forall>py px. Done ctx py px)"
  then have al: "allocatable mach p" and d: "\<forall>py px. Done ctx py px" by simp_all
  have W: "0 < Width (Size (params g))" using v by simp
  have rne: "rows g \<noteq> []" using v by (simp add: rows_def)
  from NewGenerator_NewRGBA [OF assms(1) al]
  obtain img0 where n: "NewRGBA mach
      (image_Rect 0 0 (Width (Size (params g))) (Height (Size (params g)))) = Inr img0"
    by blast
  have c: "Generate_sched ops mach g ctx rs
             = Inr (Inl (Errorf ''error processing row: '' (Err ctx) []))"
    if ne: "rs \<noteq> []" for rs
  proof -
    have "run_rows ops g ctx (halfPixelWidth ops g) (halfPixelHeight ops g) rs (img0, [])
          = Inr (img0, [] @ replicate (length rs) (Err ctx))"
      using W d by (intro run_rows_cancelled) auto
    moreover obtain n where "length rs = Suc n" using ne by (cases rs) auto
    ultimately show ?thesis
      unfolding Generate_sched_NewRGBA_Inr [OF n allocatable_rows [OF assms(1) al]] by simp
  qed
  from rne show "Generate ops mach g ctx
                   = Inr (Inl (Errorf ''error processing row: '' (Err ctx) []))"
    unfolding Generate_def by (rule c)
  from rne assms(2) have "sched \<noteq> []" by (auto simp: schedule_def)
  then show "Generate_sched ops mach g ctx sched
              = Inr (Inl (Errorf ''error processing row: '' (Err ctx) []))"
    by (rule c)
  show "errors_Is (Errorf ''error processing row: '' (Err ctx) []) (Err ctx)"
    by (simp add: errors_Is_refl)
next
  note v = NewGenerator_Inr [OF assms(1)]
  fix img py k
  assume a: "image_of_size (Width (Size p)) (Height (Size p)) img
             \<and> 0 \<le> py \<and> py < Height (Size p) \<and> 0 \<le> k \<and> k < Width (Size p)
             \<and> (\<forall>j. 0 \<le> j \<and> j < k \<longrightarrow> \<not> Done ctx py j) \<and> Done ctx py k"
  let ?W = "Width (Size (params g))" and ?H = "Height (Size (params g))"
  have pr: "processRow ops g ctx py img sw sh =
            processRow_loop ops g ctx py (plane_y ops g py) sw sh 0 img"
    by (simp add: processRow_def plane_y_def)
  have "\<exists>img'. processRow_loop ops g ctx py (plane_y ops g py) sw sh 0 img =
             Inr (if k < ?W then Some (Err ctx) else None, img')
           \<and> image_of_size ?W ?H img'
           \<and> (\<forall>x' y'. 0 \<le> x' \<and> x' < ?W \<and> 0 \<le> y' \<and> y' < ?H \<longrightarrow>
                 RGBAAt img' x' y' =
                   (if y' = py \<and> 0 \<le> x' \<and> x' < k
                    then average_RGBA (getSamples ops g (plane_x ops g x') (plane_y ops g py) sw sh)
                    else RGBAAt img x' y'))"
    using a v(1) by (intro processRow_loop_effect) auto
  then show "\<exists>img'. processRow ops g ctx py img sw sh = Inr (Some (Err ctx), img')
                  \<and> (\<forall>x y. 0 \<le> x \<and> x < Width (Size p) \<and> 0 \<le> y \<and> y < Height (Size p) \<longrightarrow>
                        RGBAAt img' x y =
                          (if y = py \<and> x < k
                           then average_RGBA (getSamples ops g (plane_x ops g x) (plane_y ops g py) sw sh)
                           else RGBAAt img x y))"
    using a v(1) unfolding pr by auto
qed

text \<open>The theorem on the small render: cancelled before the start, and a first row that
  sees the cancellation before its second pixel, on the zeroed image of 2 by 2 pixels.\<close>

theorem Generate_cancelled_witness:
  "NewGenerator exact_ops tiny_parameters = Inr tiny_generator
   \<and> allocatable roomy_machine tiny_parameters
   \<and> schedule tiny_generator [1, 0]
   \<and> Generate exact_ops roomy_machine tiny_generator always_done
       = Inr (Inl (Errorf ''error processing row: '' Canceled []))
   \<and> Generate_sched exact_ops roomy_machine tiny_generator always_done [1, 0]
       = Inr (Inl (Errorf ''error processing row: '' Canceled []))
   \<and> (\<exists>img'. processRow exact_ops tiny_generator (done_from 1) 0
                 \<lparr> Pix = replicate 4 (RGBA 0 0 0 0), Stride = 2,
                   Rect = \<lparr> MinX = 0, MinY = 0, MaxX = 2, MaxY = 2 \<rparr> \<rparr> 1 1
               = Inr (Some Canceled, img')
            \<and> RGBAAt img' 0 0 = RGBA 56 72 184 255
            \<and> RGBAAt img' 1 0 = RGBA 0 0 0 0)"
proof -
  have d: "\<forall>py px. Done always_done py px" by (simp add: always_done_def)
  from Generate_cancelled [OF NewGenerator_tiny schedule_tiny, of roomy_machine always_done]
    d allocatable_tiny
  have a: "Generate exact_ops roomy_machine tiny_generator always_done
             = Inr (Inl (Errorf ''error processing row: '' Canceled []))"
    "Generate_sched exact_ops roomy_machine tiny_generator always_done [1, 0]
       = Inr (Inl (Errorf ''error processing row: '' Canceled []))"
    by (simp_all add: always_done_def)
  let ?img = "\<lparr> Pix = replicate 4 (RGBA 0 0 0 0), Stride = 2,
                 Rect = \<lparr> MinX = 0, MinY = 0, MaxX = 2, MaxY = 2 \<rparr> \<rparr>"
  have h: "image_of_size (Width (Size tiny_parameters)) (Height (Size tiny_parameters)) ?img
             \<and> (0 :: int) \<le> 0 \<and> 0 < Height (Size tiny_parameters) \<and> (0 :: int) \<le> 1
             \<and> 1 < Width (Size tiny_parameters)
             \<and> (\<forall>j. 0 \<le> j \<and> j < 1 \<longrightarrow> \<not> Done (done_from 1) 0 j) \<and> Done (done_from 1) 0 1"
    by (simp add: tiny_size image_of_size_def done_from_def)
  from Generate_cancelled [OF NewGenerator_tiny schedule_tiny,
      of roomy_machine "done_from 1" 1 1] h
  obtain img' where r: "processRow exact_ops tiny_generator (done_from 1) 0 ?img 1 1
                          = Inr (Some (Err (done_from 1)), img')"
    and p: "\<And>x y. 0 \<le> x \<and> x < 2 \<and> 0 \<le> y \<and> y < 2 \<Longrightarrow>
              RGBAAt img' x y =
                (if y = 0 \<and> x < 1
                 then average_RGBA (getSamples exact_ops tiny_generator
                        (plane_x exact_ops tiny_generator x) (plane_y exact_ops tiny_generator 0) 1 1)
                 else RGBAAt ?img x y)"
    unfolding tiny_size by blast
  have "RGBAAt img' 0 0 = RGBA 56 72 184 255"
    using p [of 0 0] by (simp add: tiny_first_pixel)
  moreover have "RGBAAt ?img 1 0 = RGBA 0 0 0 0"
    by (simp add: RGBAAt_def In_Rect_def PixOffset_def)
  then have "RGBAAt img' 1 0 = RGBA 0 0 0 0"
    using p [of 1 0] by simp
  moreover have "Err (done_from 1) = Canceled" by (simp add: done_from_def)
  ultimately show ?thesis
    using r a NewGenerator_tiny allocatable_tiny schedule_tiny by auto
qed

text \<open>Claim C8 as it is stated fails. Validation accepts the default parameters on \<open>2\<^sup>3\<^sup>1\<close> by
  \<open>2\<^sup>3\<^sup>1\<close> pixels; with the context cancelled before the start, \<^verbatim>\<open>Generate\<close> allocates the
  image before any row checks the context, and panics in \<^verbatim>\<open>image.NewRGBA\<close> where the claim
  has it return the cancellation error.\<close>

theorem Generate_cancelled_counterexample:
  "NewGenerator exact_ops huge_parameters = Inr huge_generator
   \<and> Done always_done 0 0
   \<and> Generate exact_ops roomy_machine huge_generator always_done
       = Inl HugeOrNegativeDimensions"
  using NewGenerator_huge Generate_huge [of exact_ops roomy_machine always_done]
  by (simp add: always_done_def)

end
